theory Spec2Isabelle
  imports Main "HOL-Library.Sublist"
begin

section \<open>The service orchestrator of service.go\<close>

text \<open>
  The file service.go holds the \<^verbatim>\<open>service\<close> struct and its methods
  \<^verbatim>\<open>Init\<close>, \<^verbatim>\<open>Start\<close>, \<^verbatim>\<open>Stop\<close>, \<^verbatim>\<open>Run\<close> and
  \<^verbatim>\<open>registerAuthAccount\<close>. Everything the methods talk to (server, auth, store,
  registry, runtime, command parser, plugin loader, profiler, logger) is an interface
  value of another package. The embedding keeps such a value as a reference and threads
  an abstract world \<open>'w\<close> through every call; what a method of a collaborator does
  to the world and what it returns is a parameter (the record \<open>collaborators\<close>).
  Every call that service.go itself makes on a collaborator is appended to a log, so
  that the order of the calls, and the calls that were not made, can be stated.
\<close>

subsection \<open>Values\<close>

type_synonym error = string
  \<comment> \<open>a Go error value; the nil error is \<open>None :: error option\<close>\<close>

type_synonym ref = nat
  \<comment> \<open>an interface value: the identity of the object behind it\<close>

datatype authFn = authFn ref
  \<comment> \<open>\<^verbatim>\<open>func() auth.Auth { return options.Server.Options().Auth }\<close>: the closure
      keeps the server of the local \<^verbatim>\<open>options\<close> and asks it when called\<close>

datatype tracer = trace_DefaultTracer

datatype stats = stats_DefaultStats

text \<open>
  The wrappers of util/wrapper are constructors: each returns a client that holds its
  arguments and the client it wraps.
\<close>

datatype client =
    client_of ref
  | wrapper_FromService string client
  | wrapper_TraceCall string tracer client
  | wrapper_AuthClient string string authFn client

datatype handler_wrapper =
    wrapper_HandlerStats stats
  | wrapper_TraceHandler tracer
  | wrapper_AuthHandler authFn

datatype server_Option = server_WrapHandler handler_wrapper

datatype handler_Option = server_InternalHandler bool

datatype store_Option = store_Table string | store_WithClient client

datatype registry_Option = srvRegistry_WithClient client

datatype runtime_Option = runtime_WithClient client

record account =
  ID :: string
  Secret :: string

type_synonym token = string

datatype auth_Option = auth_WithClient client | auth_ClientToken token

datatype auth_GenerateOption = auth_WithRoles "string list" | auth_WithNamespace string

datatype auth_TokenOption = auth_WithCredentials string string

record server_Options =
  Name :: string
  Id' :: string
  Auth' :: ref

record auth_Options =
  Namespace :: string

datatype phase = Before_Start | After_Start | Before_Stop | After_Stop

text \<open>
  The calls service.go makes, as the log keeps them: the arguments of the call and,
  where service.go reads what the call returns, the result.
\<close>

datatype event =
    Ev_plugin_Load string "error + ref"
  | Ev_plugin_Init ref "error option"
  | Ev_logger_Fatal error
  | Ev_logger_Infof string
  | Ev_Cmd_App_SetName ref string
  | Ev_Cmd_Init ref "error option"
  | Ev_Store_Init ref "store_Option list"
  | Ev_Auth_Init ref "auth_Option list"
  | Ev_Registry_Init ref "registry_Option list"
  | Ev_Runtime_Init ref "runtime_Option list"
  | Ev_Server_Init ref "server_Option list"
  | Ev_Server_Handle ref "handler_Option list"
  | Ev_Server_Start ref "error option"
  | Ev_Server_Stop ref "error option"
  | Ev_Profile_Start ref "error option"
  | Ev_Profile_Stop ref
  | Ev_Hook phase nat "error option"
  | Ev_Auth_Generate ref string "auth_GenerateOption list" "error + account"
  | Ev_Auth_Token ref "auth_TokenOption list" "error + token"

subsection \<open>Options and the service struct\<close>

type_synonym 'w hook = "'w \<Rightarrow> error option \<times> 'w"
  \<comment> \<open>\<^verbatim>\<open>func() error\<close>: a closure over state outside the service\<close>

record 'w Options =
  Auth :: ref
  Broker :: ref
  Cmd :: ref
  Client :: client
  Config :: ref
  Server :: ref
  Store :: ref
  Registry :: ref
  Runtime :: ref
  Transport :: ref
  Profile :: "ref option"
  BeforeStart :: "'w hook list"
  BeforeStop :: "'w hook list"
  AfterStart :: "'w hook list"
  AfterStop :: "'w hook list"
  Context :: ref
  Signal :: bool

type_synonym 'w Option = "'w Options \<Rightarrow> 'w \<Rightarrow> 'w Options \<times> 'w"
  \<comment> \<open>\<^verbatim>\<open>type Option func(*Options)\<close>: it may change the options and the world\<close>

text \<open>
  \<^verbatim>\<open>Cmd.Init\<close> receives pointers to ten fields of the options and may store
  through each of them.
\<close>

record cmd_Options =
  cmd_Auth :: ref
  cmd_Broker :: ref
  cmd_Registry :: ref
  cmd_Runtime :: ref
  cmd_Transport :: ref
  cmd_Client :: client
  cmd_Config :: ref
  cmd_Server :: ref
  cmd_Store :: ref
  cmd_Profile :: "ref option"

record 'w service =
  opts :: "'w Options"
  once :: bool
  world :: 'w
  log :: "event list"

text \<open>
  The methods of the collaborators: each reads or changes the world. The service gives
  the object as a reference.
\<close>

record 'w collaborators =
  os_Getenv :: "string \<Rightarrow> 'w \<Rightarrow> string"
  plugin_Load :: "string \<Rightarrow> 'w \<Rightarrow> (error + ref) \<times> 'w"
  plugin_Init :: "ref \<Rightarrow> 'w \<Rightarrow> error option \<times> 'w"
  logger_V :: "'w \<Rightarrow> bool"
  Cmd_App_Name :: "ref \<Rightarrow> 'w \<Rightarrow> string"
  Cmd_App_SetName :: "ref \<Rightarrow> string \<Rightarrow> 'w \<Rightarrow> unit \<times> 'w"
  Cmd_Init :: "ref \<Rightarrow> cmd_Options \<Rightarrow> 'w \<Rightarrow> (error option \<times> cmd_Options) \<times> 'w"
  Store_Init :: "ref \<Rightarrow> store_Option list \<Rightarrow> 'w \<Rightarrow> error option \<times> 'w"
  Auth_Init :: "ref \<Rightarrow> auth_Option list \<Rightarrow> 'w \<Rightarrow> error option \<times> 'w"
  Auth_Options :: "ref \<Rightarrow> 'w \<Rightarrow> auth_Options"
  Auth_String :: "ref \<Rightarrow> 'w \<Rightarrow> string"
  Auth_Generate :: "ref \<Rightarrow> string \<Rightarrow> auth_GenerateOption list \<Rightarrow> 'w \<Rightarrow> (error + account) \<times> 'w"
  Auth_Token :: "ref \<Rightarrow> auth_TokenOption list \<Rightarrow> 'w \<Rightarrow> (error + token) \<times> 'w"
  Registry_Init :: "ref \<Rightarrow> registry_Option list \<Rightarrow> 'w \<Rightarrow> error option \<times> 'w"
  Runtime_Init :: "ref \<Rightarrow> runtime_Option list \<Rightarrow> 'w \<Rightarrow> error option \<times> 'w"
  Server_Options :: "ref \<Rightarrow> 'w \<Rightarrow> server_Options"
  Server_Init :: "ref \<Rightarrow> server_Option list \<Rightarrow> 'w \<Rightarrow> error option \<times> 'w"
  Server_Handle :: "ref \<Rightarrow> handler_Option list \<Rightarrow> 'w \<Rightarrow> error option \<times> 'w"
  Server_Start :: "ref \<Rightarrow> 'w \<Rightarrow> error option \<times> 'w"
  Server_Stop :: "ref \<Rightarrow> 'w \<Rightarrow> error option \<times> 'w"
  Profile_Start :: "ref \<Rightarrow> 'w \<Rightarrow> error option \<times> 'w"
  Profile_Stop :: "ref \<Rightarrow> 'w \<Rightarrow> error option \<times> 'w"
  signal_delivered :: "'w \<Rightarrow> bool"
  Context_Done :: "ref \<Rightarrow> 'w \<Rightarrow> bool"

text \<open>
  One call of a collaborator: the world goes through the method and the event, which
  may hold the result, is appended to the log.
\<close>

definition call :: "('a \<Rightarrow> event) \<Rightarrow> ('w \<Rightarrow> 'a \<times> 'w) \<Rightarrow> 'w service \<Rightarrow> 'a \<times> 'w service" where
  "call ev f s = (case f (world s) of (r, w') \<Rightarrow> (r, s\<lparr>world := w', log := log s @ [ev r]\<rparr>))"

definition emit :: "event \<Rightarrow> 'w service \<Rightarrow> 'w service" where
  "emit ev s = s\<lparr>log := log s @ [ev]\<rparr>"

subsection \<open>Library functions of Go used by service.go\<close>

text \<open>
  \<^verbatim>\<open>strings.Contains(s, substr)\<close>: whether \<open>substr\<close> starts at some position
  of \<open>s\<close>, tried from the left.
\<close>

fun Contains :: "string \<Rightarrow> string \<Rightarrow> bool" where
  "Contains [] substr = (substr = [])"
| "Contains (c # s) substr = (prefix substr (c # s) \<or> Contains s substr)"

text \<open>
  \<^verbatim>\<open>strings.Split(s, sep)\<close> for a separator of one character, the only way
  service.go calls it: the pieces between the separators, so one piece more than there
  are separators (the empty string gives one empty piece).
\<close>

fun Split :: "string \<Rightarrow> char \<Rightarrow> string list" where
  "Split [] sep = [[]]"
| "Split (c # s) sep =
     (if c = sep then [] # Split s sep
      else (case Split s sep of [] \<Rightarrow> [[c]] | p # ps \<Rightarrow> (c # p) # ps))"

text \<open>\<^verbatim>\<open>fmt.Sprintf("%v-%v", a, b)\<close> on two strings.\<close>

definition Sprintf_v_v :: "string \<Rightarrow> string \<Rightarrow> string" where
  "Sprintf_v_v a b = a @ ''-'' @ b"

subsection \<open>newService\<close>

text \<open>
  \<^verbatim>\<open>newOptions(opts...)\<close> is defined in another file: its result \<open>options\<close>
  is the parameter here. The error that \<^verbatim>\<open>Server.Init\<close> returns is dropped by the
  source.
\<close>

definition newService :: "'w collaborators \<Rightarrow> 'w Options \<Rightarrow> 'w \<Rightarrow> 'w service" where
  "newService K options w =
     (let serviceName = Name (Server_Options K (Server options) w);
          authfn = authFn (Server options);
          c1 = wrapper_FromService serviceName (Client options);
          c2 = wrapper_TraceCall serviceName trace_DefaultTracer c1;
          c3 = wrapper_AuthClient serviceName (Id' (Server_Options K (Server options) w)) authfn c2;
          options' = options\<lparr>Client := c3\<rparr>;
          wraps = [server_WrapHandler (wrapper_HandlerStats stats_DefaultStats),
                   server_WrapHandler (wrapper_TraceHandler trace_DefaultTracer),
                   server_WrapHandler (wrapper_AuthHandler authfn)]
      in case call (\<lambda>_. Ev_Server_Init (Server options') wraps)
                (Server_Init K (Server options') wraps)
                \<lparr>opts = options', once = False, world = w, log = []\<rparr> of
           (_, s) \<Rightarrow> s)"

definition service_Name :: "'w collaborators \<Rightarrow> 'w service \<Rightarrow> string" where
  "service_Name K s = Name (Server_Options K (Server (opts s)) (world s))"

subsection \<open>Init\<close>

datatype 'w Init_result =
    Init_returns "'w service"
  | Init_exits "'w service"
  \<comment> \<open>\<^verbatim>\<open>logger.Fatal\<close> logs the error and ends the process\<close>

fun process_options :: "'w Option list \<Rightarrow> 'w Options \<Rightarrow> 'w \<Rightarrow> 'w Options \<times> 'w" where
  "process_options [] opt w = (opt, w)"
| "process_options (f # fs) opt w = (case f opt w of (opt', w') \<Rightarrow> process_options fs opt' w')"

fun setup_plugins :: "'w collaborators \<Rightarrow> string list \<Rightarrow> 'w service \<Rightarrow> 'w Init_result" where
  "setup_plugins K [] s = Init_returns s"
| "setup_plugins K (p # ps) s =
     (if length p = 0 then setup_plugins K ps s
      else (case call (Ev_plugin_Load p) (plugin_Load K p) s of
              (Inl err, s1) \<Rightarrow> Init_exits (emit (Ev_logger_Fatal err) s1)
            | (Inr c, s1) \<Rightarrow>
                (case call (Ev_plugin_Init c) (plugin_Init K c) s1 of
                   (Some err, s2) \<Rightarrow> Init_exits (emit (Ev_logger_Fatal err) s2)
                 | (None, s2) \<Rightarrow> setup_plugins K ps s2)))"

definition cmd_pointers :: "'w Options \<Rightarrow> cmd_Options" where
  "cmd_pointers opt =
     \<lparr>cmd_Auth = Auth opt, cmd_Broker = Broker opt, cmd_Registry = Registry opt,
      cmd_Runtime = Runtime opt, cmd_Transport = Transport opt, cmd_Client = Client opt,
      cmd_Config = Config opt, cmd_Server = Server opt, cmd_Store = Store opt,
      cmd_Profile = Profile opt\<rparr>"

definition cmd_stored :: "cmd_Options \<Rightarrow> 'w Options \<Rightarrow> 'w Options" where
  "cmd_stored c opt =
     opt\<lparr>Auth := cmd_Auth c, Broker := cmd_Broker c, Registry := cmd_Registry c,
         Runtime := cmd_Runtime c, Transport := cmd_Transport c, Client := cmd_Client c,
         Config := cmd_Config c, Server := cmd_Server c, Store := cmd_Store c,
         Profile := cmd_Profile c\<rparr>"

text \<open>
  The function given to \<^verbatim>\<open>s.once.Do\<close> (lines 75 to 124). The source calls the
  five \<^verbatim>\<open>Init\<close> methods of store, auth, registry and runtime as statements:
  whatever they return is dropped.
\<close>

definition once_body :: "'w collaborators \<Rightarrow> 'w service \<Rightarrow> 'w Init_result" where
  "once_body K s =
     (case setup_plugins K (Split (os_Getenv K ''MICRO_PLUGIN'' (world s)) CHR '','') s of
        Init_exits s1 \<Rightarrow> Init_exits s1
      | Init_returns s1 \<Rightarrow>
          (let s2 = (if length (Cmd_App_Name K (Cmd (opts s1)) (world s1)) = 0
                     then snd (call (\<lambda>_. Ev_Cmd_App_SetName (Cmd (opts s1)) (service_Name K s1))
                                 (Cmd_App_SetName K (Cmd (opts s1)) (service_Name K s1)) s1)
                     else s1)
           in case call (\<lambda>r. Ev_Cmd_Init (Cmd (opts s2)) (fst r))
                     (Cmd_Init K (Cmd (opts s2)) (cmd_pointers (opts s2))) s2 of
                ((err, c), s3) \<Rightarrow>
                  (let s4 = s3\<lparr>opts := cmd_stored c (opts s3)\<rparr> in
                   case err of
                     Some e \<Rightarrow> Init_exits (emit (Ev_logger_Fatal e) s4)
                   | None \<Rightarrow>
                      (let name = Cmd_App_Name K (Cmd (opts s4)) (world s4);
                           s5 = snd (call (\<lambda>_. Ev_Store_Init (Store (opts s4)) [store_Table name])
                                       (Store_Init K (Store (opts s4)) [store_Table name]) s4);
                           s6 = snd (call (\<lambda>_. Ev_Auth_Init (Auth (opts s5)) [auth_WithClient (Client (opts s5))])
                                       (Auth_Init K (Auth (opts s5)) [auth_WithClient (Client (opts s5))]) s5);
                           s7 = snd (call (\<lambda>_. Ev_Registry_Init (Registry (opts s6)) [srvRegistry_WithClient (Client (opts s6))])
                                       (Registry_Init K (Registry (opts s6)) [srvRegistry_WithClient (Client (opts s6))]) s6);
                           s8 = snd (call (\<lambda>_. Ev_Runtime_Init (Runtime (opts s7)) [runtime_WithClient (Client (opts s7))])
                                       (Runtime_Init K (Runtime (opts s7)) [runtime_WithClient (Client (opts s7))]) s7);
                           s9 = snd (call (\<lambda>_. Ev_Store_Init (Store (opts s8)) [store_WithClient (Client (opts s8))])
                                       (Store_Init K (Store (opts s8)) [store_WithClient (Client (opts s8))]) s8)
                       in Init_returns s9))))"

text \<open>
  \<^verbatim>\<open>sync.Once.Do(f)\<close>: \<open>f\<close> runs when the flag is not set, and the flag is set
  when \<open>f\<close> has returned.
\<close>

definition once_Do :: "('w service \<Rightarrow> 'w Init_result) \<Rightarrow> 'w service \<Rightarrow> 'w Init_result" where
  "once_Do f s =
     (if once s then Init_returns s
      else (case f s of
              Init_exits s' \<Rightarrow> Init_exits s'
            | Init_returns s' \<Rightarrow> Init_returns (s'\<lparr>once := True\<rparr>)))"

definition Init :: "'w collaborators \<Rightarrow> 'w Option list \<Rightarrow> 'w service \<Rightarrow> 'w Init_result" where
  "Init K os s =
     (case process_options os (opts s) (world s) of
        (opt', w') \<Rightarrow> once_Do (once_body K) (s\<lparr>opts := opt', world := w'\<rparr>))"

subsection \<open>Start and Stop\<close>

text \<open>
  The loops of \<^verbatim>\<open>Start\<close> (lines 144 to 148 and 154 to 158): the first hook that
  returns an error ends the loop and the method. The event of a hook holds the phase,
  the hook's place in its list and what the hook returned.
\<close>

fun hooks_until_error :: "phase \<Rightarrow> nat \<Rightarrow> 'w hook list \<Rightarrow> 'w service \<Rightarrow> error option \<times> 'w service" where
  "hooks_until_error ph i [] s = (None, s)"
| "hooks_until_error ph i (fn # fns) s =
     (case call (Ev_Hook ph i) fn s of
        (Some err, s') \<Rightarrow> (Some err, s')
      | (None, s') \<Rightarrow> hooks_until_error ph (Suc i) fns s')"

definition Start :: "'w collaborators \<Rightarrow> 'w service \<Rightarrow> error option \<times> 'w service" where
  "Start K s =
     (case hooks_until_error Before_Start 0 (BeforeStart (opts s)) s of
        (Some err, s1) \<Rightarrow> (Some err, s1)
      | (None, s1) \<Rightarrow>
          (case call (Ev_Server_Start (Server (opts s1))) (Server_Start K (Server (opts s1))) s1 of
             (Some err, s2) \<Rightarrow> (Some err, s2)
           | (None, s2) \<Rightarrow> hooks_until_error After_Start 0 (AfterStart (opts s2)) s2))"

text \<open>
  The loops of \<^verbatim>\<open>Stop\<close> (lines 166 to 170 and 176 to 180): every hook runs, and
  \<^verbatim>\<open>gerr\<close> keeps the error of the last one that failed.
\<close>

fun hooks_keep_error :: "phase \<Rightarrow> nat \<Rightarrow> 'w hook list \<Rightarrow> error option \<Rightarrow> 'w service \<Rightarrow> error option \<times> 'w service" where
  "hooks_keep_error ph i [] gerr s = (gerr, s)"
| "hooks_keep_error ph i (fn # fns) gerr s =
     (case call (Ev_Hook ph i) fn s of
        (Some err, s') \<Rightarrow> hooks_keep_error ph (Suc i) fns (Some err) s'
      | (None, s') \<Rightarrow> hooks_keep_error ph (Suc i) fns gerr s')"

definition Stop :: "'w collaborators \<Rightarrow> 'w service \<Rightarrow> error option \<times> 'w service" where
  "Stop K s =
     (case hooks_keep_error Before_Stop 0 (BeforeStop (opts s)) None s of
        (gerr, s1) \<Rightarrow>
          (case call (Ev_Server_Stop (Server (opts s1))) (Server_Stop K (Server (opts s1))) s1 of
             (Some err, s2) \<Rightarrow> (Some err, s2)
           | (None, s2) \<Rightarrow> hooks_keep_error After_Stop 0 (AfterStop (opts s2)) gerr s2))"

subsection \<open>registerAuthAccount\<close>

text \<open>The value of the local variable \<^verbatim>\<open>serviceType\<close> (lines 240 to 245).\<close>

definition serviceType :: "string \<Rightarrow> string" where
  "serviceType name =
     (if Contains name ''api'' then ''api''
      else if Contains name ''web'' then ''web''
      else ''service'')"

definition registerAuthAccount :: "'w collaborators \<Rightarrow> 'w service \<Rightarrow> error option \<times> 'w service" where
  "registerAuthAccount K s =
     (let name = Sprintf_v_v (service_Name K s) (Id' (Server_Options K (Server (opts s)) (world s)));
          gen = [auth_WithRoles [serviceType (service_Name K s)],
                 auth_WithNamespace (Namespace (Auth_Options K (Auth (opts s)) (world s)))]
      in case call (Ev_Auth_Generate (Auth (opts s)) name gen)
                (Auth_Generate K (Auth (opts s)) name gen) s of
           (Inl err, s1) \<Rightarrow> (Some err, s1)
         | (Inr acc, s1) \<Rightarrow>
             (let cred = [auth_WithCredentials (ID acc) (Secret acc)]
              in case call (Ev_Auth_Token (Auth (opts s1)) cred)
                        (Auth_Token K (Auth (opts s1)) cred) s1 of
                   (Inl err, s2) \<Rightarrow> (Some err, s2)
                 | (Inr tok, s2) \<Rightarrow>
                     (case call (\<lambda>_. Ev_Auth_Init (Auth (opts s2)) [auth_ClientToken tok])
                             (Auth_Init K (Auth (opts s2)) [auth_ClientToken tok]) s2 of
                        (_, s3) \<Rightarrow>
                          (None,
                           emit (Ev_logger_Infof
                                   (''Auth ['' @ Auth_String K (Auth (opts s3)) (world s3)
                                      @ ''] Authenticated as '' @ name)) s3))))"

subsection \<open>Run\<close>

datatype 'w Run_result =
    Run_returns "error option" "'w service"
  | Run_blocks "'w service"
  \<comment> \<open>the \<^verbatim>\<open>select\<close> of lines 225 to 230 may wait for ever\<close>

text \<open>
  Lines 207 to 232, the part of \<^verbatim>\<open>Run\<close> after the profiler has started. The
  \<^verbatim>\<open>select\<close> goes on when a shutdown signal is delivered (the channel is only
  subscribed when the option \<^verbatim>\<open>Signal\<close> is set) or when the context is done; whether
  either ever happens is a parameter.
\<close>

definition Run_started :: "'w collaborators \<Rightarrow> 'w service \<Rightarrow> 'w Run_result" where
  "Run_started K s =
     (let s1 = (if logger_V K (world s)
                then emit (Ev_logger_Infof (''Starting [service] '' @ service_Name K s)) s
                else s)
      in case registerAuthAccount K s1 of
           (Some err, s2) \<Rightarrow> Run_returns (Some err) s2
         | (None, s2) \<Rightarrow>
             (case Start K s2 of
                (Some err, s3) \<Rightarrow> Run_returns (Some err) s3
              | (None, s3) \<Rightarrow>
                  (if (Signal (opts s3) \<and> signal_delivered K (world s3))
                      \<or> Context_Done K (Context (opts s3)) (world s3)
                   then (case Stop K s3 of (r, s4) \<Rightarrow> Run_returns r s4)
                   else Run_blocks s3)))"

text \<open>
  \<^verbatim>\<open>Run\<close>. The debug handler is built and registered in one statement (lines 187
  to 192), kept as one entry of the log; what \<^verbatim>\<open>Server.Handle\<close> returns is dropped.
  The two settings of the Go runtime's profiling rates (lines 197 and 199) touch
  nothing the service reads and are left out. The deferred
  \<^verbatim>\<open>Profile.Stop\<close> runs when the method returns, on the profiler the options held
  at the \<^verbatim>\<open>defer\<close> statement; its error is dropped.
\<close>

definition Run :: "'w collaborators \<Rightarrow> 'w service \<Rightarrow> 'w Run_result" where
  "Run K s =
     (case call (\<lambda>_. Ev_Server_Handle (Server (opts s)) [server_InternalHandler True])
             (Server_Handle K (Server (opts s)) [server_InternalHandler True]) s of
        (_, s1) \<Rightarrow>
          (case Profile (opts s1) of
             None \<Rightarrow> Run_started K s1
           | Some p \<Rightarrow>
               (case call (Ev_Profile_Start p) (Profile_Start K p) s1 of
                  (Some err, s2) \<Rightarrow> Run_returns (Some err) s2
                | (None, s2) \<Rightarrow>
                    (case Run_started K s2 of
                       Run_blocks s3 \<Rightarrow> Run_blocks s3
                     | Run_returns r s3 \<Rightarrow>
                         (case call (\<lambda>_. Ev_Profile_Stop p) (Profile_Stop K p) s3 of
                            (_, s4) \<Rightarrow> Run_returns r s4)))))"

subsection \<open>A sample process\<close>

text \<open>
  Collaborators over a world that counts the calls made on it. Every method succeeds;
  the server is named \<open>orders\<close> with the instance id \<open>i1\<close>, the auth
  namespace is \<open>ns\<close>, and no plugin is configured.
\<close>

definition K0 :: "nat collaborators" where
  "K0 =
     \<lparr>os_Getenv = (\<lambda>_ _. []),
      plugin_Load = (\<lambda>_ w. (Inr 0, Suc w)),
      plugin_Init = (\<lambda>_ w. (None, Suc w)),
      logger_V = (\<lambda>_. False),
      Cmd_App_Name = (\<lambda>_ _. ''orders''),
      Cmd_App_SetName = (\<lambda>_ _ w. ((), Suc w)),
      Cmd_Init = (\<lambda>_ c w. ((None, c), Suc w)),
      Store_Init = (\<lambda>_ _ w. (None, Suc w)),
      Auth_Init = (\<lambda>_ _ w. (None, Suc w)),
      Auth_Options = (\<lambda>_ _. \<lparr>Namespace = ''ns''\<rparr>),
      Auth_String = (\<lambda>_ _. ''service''),
      Auth_Generate = (\<lambda>_ _ _ w. (Inr \<lparr>ID = ''id0'', Secret = ''secret0''\<rparr>, Suc w)),
      Auth_Token = (\<lambda>_ _ w. (Inr ''token0'', Suc w)),
      Registry_Init = (\<lambda>_ _ w. (None, Suc w)),
      Runtime_Init = (\<lambda>_ _ w. (None, Suc w)),
      Server_Options = (\<lambda>_ _. \<lparr>Name = ''orders'', Id' = ''i1'', Auth' = 1\<rparr>),
      Server_Init = (\<lambda>_ _ w. (None, Suc w)),
      Server_Handle = (\<lambda>_ _ w. (None, Suc w)),
      Server_Start = (\<lambda>_ w. (None, Suc w)),
      Server_Stop = (\<lambda>_ w. (None, Suc w)),
      Profile_Start = (\<lambda>_ w. (None, Suc w)),
      Profile_Stop = (\<lambda>_ w. (None, Suc w)),
      signal_delivered = (\<lambda>_. True),
      Context_Done = (\<lambda>_ _. False)\<rparr>"

definition hook_ok :: "nat hook" where
  "hook_ok w = (None, Suc w)"

definition hook_failing :: "error \<Rightarrow> nat hook" where
  "hook_failing e w = (Some e, Suc w)"

definition options0 :: "nat Options" where
  "options0 =
     \<lparr>Auth = 1, Broker = 2, Cmd = 3, Client = client_of 4, Config = 5, Server = 6,
      Store = 7, Registry = 8, Runtime = 9, Transport = 10, Profile = None,
      BeforeStart = [], BeforeStop = [], AfterStart = [], AfterStop = [],
      Context = 11, Signal = True\<rparr>"

definition service0 :: "nat service" where
  "service0 = \<lparr>opts = options0, once = False, world = 0, log = []\<rparr>"

subsection \<open>Notions used to state the properties\<close>

text \<open>
  What the spec says of a chain of hooks, written without the loops of the source:
  \<open>first_failure\<close> runs the hooks in order up to the first one that returns an
  error and gives its place, its error and the world it left; \<open>run_all\<close> runs
  every hook and gives the list of what they returned; \<open>last_error\<close> is the last
  error of such a list; \<open>hook_events\<close> are the log entries of the hooks numbered
  from \<open>i\<close> that returned \<open>rs\<close>.
\<close>

fun first_failure :: "nat \<Rightarrow> 'w hook list \<Rightarrow> 'w \<Rightarrow> (nat \<times> error \<times> 'w) option" where
  "first_failure i [] w = None"
| "first_failure i (fn # fns) w =
     (case fn w of
        (Some e, w') \<Rightarrow> Some (i, e, w')
      | (None, w') \<Rightarrow> first_failure (Suc i) fns w')"

fun run_all :: "'w hook list \<Rightarrow> 'w \<Rightarrow> error option list \<times> 'w" where
  "run_all [] w = ([], w)"
| "run_all (fn # fns) w =
     (case fn w of (r, w') \<Rightarrow> (case run_all fns w' of (rs, w'') \<Rightarrow> (r # rs, w'')))"

definition last_error :: "error option list \<Rightarrow> error option" where
  "last_error rs = (let es = filter (\<lambda>r. r \<noteq> None) rs in if es = [] then None else last es)"

fun hook_events :: "phase \<Rightarrow> nat \<Rightarrow> error option list \<Rightarrow> event list" where
  "hook_events ph i [] = []"
| "hook_events ph i (r # rs) = Ev_Hook ph i r # hook_events ph (Suc i) rs"

text \<open>
  Services for the hook chains: three hooks before the start, the second of which
  fails; two hooks before the start, the second of which fails; and a service whose
  first hook before the stop fails while everything after it succeeds.
\<close>

definition service_start3 :: "nat service" where
  "service_start3 =
     service0\<lparr>opts := options0\<lparr>BeforeStart := [hook_ok, hook_failing ''B failed'', hook_ok],
                                 AfterStart := [hook_ok]\<rparr>\<rparr>"

definition service_start2 :: "nat service" where
  "service_start2 =
     service0\<lparr>opts := options0\<lparr>BeforeStart := [hook_ok, hook_failing ''B failed''],
                                 AfterStart := [hook_ok]\<rparr>\<rparr>"

definition service_stop2 :: "nat service" where
  "service_stop2 =
     service0\<lparr>opts := options0\<lparr>BeforeStop := [hook_failing ''A failed'', hook_ok],
                                 AfterStop := [hook_ok]\<rparr>\<rparr>"

text \<open>
  Modelled from the spec: what a wrapped client does on an outbound call. The
  \<^verbatim>\<open>Call\<close> methods of the wrappers are in util/wrapper, not in service.go; by the
  spec (4.2 and the data model's MiddlewareLayer) each layer acts and then hands the
  call to the client it wraps, so the layer applied last acts first.
\<close>

datatype step =
    inject_From_Service
  | attach_trace_span
  | attach_auth_credential
  | base_client ref
  | collect_stats
  | create_trace_span
  | verify_auth_credential
  | user_handler

fun outbound_steps :: "client \<Rightarrow> step list" where
  "outbound_steps (client_of r) = [base_client r]"
| "outbound_steps (wrapper_FromService n c) = inject_From_Service # outbound_steps c"
| "outbound_steps (wrapper_TraceCall n t c) = attach_trace_span # outbound_steps c"
| "outbound_steps (wrapper_AuthClient n i f c) = attach_auth_credential # outbound_steps c"

text \<open>
  Modelled from the spec: how the server dispatches a request through the wrap list
  it was given. The server is not in service.go; by the spec (4.2) the list is
  executed outermost-to-innermost in the order registered, and the user handler runs
  last.
\<close>

fun handler_step :: "handler_wrapper \<Rightarrow> step" where
  "handler_step (wrapper_HandlerStats st) = collect_stats"
| "handler_step (wrapper_TraceHandler t) = create_trace_span"
| "handler_step (wrapper_AuthHandler f) = verify_auth_credential"

fun inbound_steps :: "server_Option list \<Rightarrow> step list" where
  "inbound_steps [] = [user_handler]"
| "inbound_steps (server_WrapHandler h # ws) = handler_step h # inbound_steps ws"


text \<open>
  The entries of the log written by the first two steps of the one-time sequence
  (plugins and the default of the application name), and the names of the plugins a
  log shows as loaded.
\<close>

fun is_prelude :: "event \<Rightarrow> bool" where
  "is_prelude (Ev_plugin_Load p r) = True"
| "is_prelude (Ev_plugin_Init c r) = True"
| "is_prelude (Ev_Cmd_App_SetName c n) = True"
| "is_prelude ev = False"

fun loaded_plugins :: "event list \<Rightarrow> string list" where
  "loaded_plugins [] = []"
| "loaded_plugins (Ev_plugin_Load p r # evs) = p # loaded_plugins evs"
| "loaded_plugins (ev # evs) = loaded_plugins evs"

text \<open>
  The entries written by the steps after the prelude when the flags parse: flag
  parsing, the binding of the store's table, and the four collaborators given the
  client.
\<close>

definition gated_steps :: "'w Options \<Rightarrow> string \<Rightarrow> event list" where
  "gated_steps opt name =
     [Ev_Cmd_Init (Cmd opt) None,
      Ev_Store_Init (Store opt) [store_Table name],
      Ev_Auth_Init (Auth opt) [auth_WithClient (Client opt)],
      Ev_Registry_Init (Registry opt) [srvRegistry_WithClient (Client opt)],
      Ev_Runtime_Init (Runtime opt) [runtime_WithClient (Client opt)],
      Ev_Store_Init (Store opt) [store_WithClient (Client opt)]]"

text \<open>
  The same collaborators with the errors of the four \<^verbatim>\<open>Init\<close> methods of store,
  auth, registry and runtime replaced by nil; what the methods do to the world stays.
\<close>

definition without_Init_errors :: "'w collaborators \<Rightarrow> 'w collaborators" where
  "without_Init_errors K =
     K\<lparr>Store_Init := (\<lambda>r os w. (None, snd (Store_Init K r os w))),
       Auth_Init := (\<lambda>r os w. (None, snd (Auth_Init K r os w))),
       Registry_Init := (\<lambda>r os w. (None, snd (Registry_Init K r os w))),
       Runtime_Init := (\<lambda>r os w. (None, snd (Runtime_Init K r os w)))\<rparr>"

text \<open>
  The sample collaborators with a store, an auth, a registry and a runtime whose
  \<^verbatim>\<open>Init\<close> fails, and the sample service after its first \<^verbatim>\<open>Init\<close>.
\<close>

definition K_failing_Init :: "nat collaborators" where
  "K_failing_Init =
     K0\<lparr>Store_Init := (\<lambda>_ _ w. (Some ''store unavailable'', Suc w)),
        Auth_Init := (\<lambda>_ _ w. (Some ''auth unavailable'', Suc w)),
        Registry_Init := (\<lambda>_ _ w. (Some ''registry unavailable'', Suc w)),
        Runtime_Init := (\<lambda>_ _ w. (Some ''runtime unavailable'', Suc w))\<rparr>"

definition service1 :: "nat service" where
  "service1 =
     \<lparr>opts = options0, once = True, world = 6,
      log = [Ev_Cmd_Init 3 None,
             Ev_Store_Init 7 [store_Table ''orders''],
             Ev_Auth_Init 1 [auth_WithClient (client_of 4)],
             Ev_Registry_Init 8 [srvRegistry_WithClient (client_of 4)],
             Ev_Runtime_Init 9 [runtime_WithClient (client_of 4)],
             Ev_Store_Init 7 [store_WithClient (client_of 4)]]\<rparr>"

text \<open>An override that switches the handling of signals off.\<close>

definition no_Signal :: "nat Option" where
  "no_Signal opt w = (opt\<lparr>Signal := False\<rparr>, w)"

text \<open>
  For the order of the calls of \<^verbatim>\<open>Run\<close>: the entries of the log that are the
  server's accept call, those that are requests to the auth collaborator for an
  account or a token, and the state in which \<^verbatim>\<open>Run\<close> returns or blocks.
\<close>

fun is_accept :: "event \<Rightarrow> bool" where
  "is_accept (Ev_Server_Start srv r) = True"
| "is_accept ev = False"

fun is_auth_request :: "event \<Rightarrow> bool" where
  "is_auth_request (Ev_Auth_Generate a n g r) = True"
| "is_auth_request (Ev_Auth_Token a c r) = True"
| "is_auth_request ev = False"

fun Run_state :: "'w Run_result \<Rightarrow> 'w service" where
  "Run_state (Run_returns r s) = s"
| "Run_state (Run_blocks s) = s"

text \<open>
  \<open>bootstrap_entries r reg\<close>: the entries \<open>reg\<close> are those of one identity
  bootstrap that ended with \<open>r\<close>. Either the account generation failed, or it gave
  an account and the request for a token with the account's id and secret failed, or
  the token was issued and handed to the auth collaborator.
\<close>

definition bootstrap_entries :: "error option \<Rightarrow> event list \<Rightarrow> bool" where
  "bootstrap_entries r reg \<longleftrightarrow>
     (\<exists>a n g e. reg = [Ev_Auth_Generate a n g (Inl e)] \<and> r = Some e)
     \<or> (\<exists>a n g acc e.
           reg = [Ev_Auth_Generate a n g (Inr acc),
                  Ev_Auth_Token a [auth_WithCredentials (ID acc) (Secret acc)] (Inl e)]
           \<and> r = Some e)
     \<or> (\<exists>a n g acc tok msg.
           reg = [Ev_Auth_Generate a n g (Inr acc),
                  Ev_Auth_Token a [auth_WithCredentials (ID acc) (Secret acc)] (Inr tok),
                  Ev_Auth_Init a [auth_ClientToken tok],
                  Ev_logger_Infof msg]
           \<and> r = None)"

text \<open>The sample collaborators with an auth that refuses to generate an account.\<close>

definition K_no_account :: "nat collaborators" where
  "K_no_account = K0\<lparr>Auth_Generate := (\<lambda>_ _ _ w. (Inl ''generation refused'', Suc w))\<rparr>"

section \<open>Properties\<close>

subsection \<open>Auxiliary facts\<close>

lemma call_eq:
  "call ev f s =
     (fst (f (world s)), s\<lparr>world := snd (f (world s)), log := log s @ [ev (fst (f (world s)))]\<rparr>)"
  by (simp add: call_def split: prod.split)

lemma Contains_sublist: "Contains s sub \<longleftrightarrow> sublist sub s"
  by (induction s) (auto simp: sublist_Cons_right)

subsection \<open>Role classification\<close>

text \<open>
  Claim C6. The role is found by looking for substrings of the service name, the
  checks made in the order of the source: a name that contains \<open>api\<close> is classified
  \<open>api\<close>; a name that contains \<open>web\<close> (and did not pass the first check) is
  classified \<open>web\<close>; every other name is classified \<open>service\<close>. So
  \<open>foo-api\<close> gives \<open>api\<close>, \<open>foo-web\<close> gives \<open>web\<close>, \<open>foo\<close> gives
  \<open>service\<close>, and \<open>webfoo\<close> gives \<open>web\<close>: the match is on substrings, not
  on tokens. Here \<open>sublist u v\<close> says that \<open>u\<close> occurs in \<open>v\<close> as a
  contiguous piece.
\<close>

theorem role_classification:
  "(sublist ''api'' name \<longrightarrow> serviceType name = ''api'')
   \<and> (sublist ''web'' name \<and> \<not> sublist ''api'' name \<longrightarrow> serviceType name = ''web'')
   \<and> (\<not> sublist ''api'' name \<and> \<not> sublist ''web'' name \<longrightarrow> serviceType name = ''service'')
   \<and> serviceType ''foo-api'' = ''api''
   \<and> serviceType ''foo-web'' = ''web''
   \<and> serviceType ''foo'' = ''service''
   \<and> serviceType ''webfoo'' = ''web''"
  by (simp add: serviceType_def Contains_sublist [symmetric])

theorem role_classification_witness:
  "sublist ''api'' ''foo-api'' \<and> serviceType ''foo-api'' = ''api''
   \<and> sublist ''web'' ''webfoo'' \<and> \<not> sublist ''api'' ''webfoo'' \<and> serviceType ''webfoo'' = ''web''
   \<and> \<not> sublist ''api'' ''foo'' \<and> \<not> sublist ''web'' ''foo'' \<and> serviceType ''foo'' = ''service''"
  using role_classification [of "''foo-api''"] role_classification [of "''webfoo''"]
    role_classification [of "''foo''"]
  by (simp add: Contains_sublist [symmetric])

text \<open>
  Claim C10. The check for \<open>api\<close> comes before the check for \<open>web\<close>: a name
  that contains both substrings, such as \<open>api-web-gateway\<close>, is classified
  \<open>api\<close> and never \<open>web\<close>.
\<close>

theorem api_before_web:
  "(sublist ''api'' name \<and> sublist ''web'' name \<longrightarrow>
      serviceType name = ''api'' \<and> serviceType name \<noteq> ''web'')
   \<and> serviceType ''api-web-gateway'' = ''api''"
  by (simp add: serviceType_def Contains_sublist [symmetric])

theorem api_before_web_witness:
  "sublist ''api'' ''web-api'' \<and> sublist ''web'' ''web-api''
   \<and> serviceType ''web-api'' = ''api'' \<and> serviceType ''web-api'' \<noteq> ''web''"
  using api_before_web [of "''web-api''"]
  by (simp add: Contains_sublist [symmetric])

subsection \<open>The identity of the service\<close>

lemma registerAuthAccount_eq:
  "registerAuthAccount K s =
     (let a = Auth (opts s);
          name = Sprintf_v_v (service_Name K s) (Id' (Server_Options K (Server (opts s)) (world s)));
          gen = [auth_WithRoles [serviceType (service_Name K s)],
                 auth_WithNamespace (Namespace (Auth_Options K a (world s)))];
          g = Auth_Generate K a name gen (world s)
      in case fst g of
           Inl err \<Rightarrow> (Some err, s\<lparr>world := snd g, log := log s @ [Ev_Auth_Generate a name gen (Inl err)]\<rparr>)
         | Inr acc \<Rightarrow>
             (let cred = [auth_WithCredentials (ID acc) (Secret acc)];
                  t = Auth_Token K a cred (snd g)
              in case fst t of
                   Inl err \<Rightarrow>
                     (Some err, s\<lparr>world := snd t,
                        log := log s @ [Ev_Auth_Generate a name gen (Inr acc), Ev_Auth_Token a cred (Inl err)]\<rparr>)
                 | Inr tok \<Rightarrow>
                     (let w3 = snd (Auth_Init K a [auth_ClientToken tok] (snd t))
                      in (None, s\<lparr>world := w3,
                            log := log s @ [Ev_Auth_Generate a name gen (Inr acc),
                                            Ev_Auth_Token a cred (Inr tok),
                                            Ev_Auth_Init a [auth_ClientToken tok],
                                            Ev_logger_Infof (''Auth ['' @ Auth_String K a w3
                                               @ ''] Authenticated as '' @ name)]\<rparr>))))"
  unfolding registerAuthAccount_def call_eq emit_def Let_def
  by (simp split: sum.split)

lemma serviceType_orders: "serviceType ''orders'' = ''service''"
  by (simp add: serviceType_def)

text \<open>
  Claim C7. \<^verbatim>\<open>registerAuthAccount\<close> asks the auth collaborator to generate an
  account under the name made of the service name, a hyphen and the server's instance
  id, with the single role given by the classification of the name and with the
  namespace of the auth collaborator's options. When that succeeds it asks for a token
  with the id and the secret of the account returned, and when that succeeds it hands
  the token to the auth collaborator (\<^verbatim>\<open>Init(ClientToken(token))\<close>) and returns nil.
  A failed generation or a failed token request is returned and nothing more is called.
  For the service \<open>orders\<close> with instance id \<open>i1\<close> the account name is
  \<open>orders-i1\<close> and the role is \<open>service\<close>.
\<close>

theorem registerAuthAccount_requests:
  assumes run: "registerAuthAccount K s = (r, s')"
    and a: "a = Auth (opts s)"
    and n: "n = Name (Server_Options K (Server (opts s)) (world s))"
    and i: "i = Id' (Server_Options K (Server (opts s)) (world s))"
    and ns: "ns = Namespace (Auth_Options K a (world s))"
  shows "(let name = n @ ''-'' @ i;
              gen = [auth_WithRoles [serviceType n], auth_WithNamespace ns];
              g = Auth_Generate K a name gen (world s)
          in case fst g of
               Inl err \<Rightarrow> r = Some err \<and> log s' = log s @ [Ev_Auth_Generate a name gen (Inl err)]
             | Inr acc \<Rightarrow>
                 (let cred = [auth_WithCredentials (ID acc) (Secret acc)];
                      t = Auth_Token K a cred (snd g)
                  in case fst t of
                       Inl err \<Rightarrow>
                         r = Some err
                         \<and> log s' = log s @ [Ev_Auth_Generate a name gen (Inr acc),
                                             Ev_Auth_Token a cred (Inl err)]
                     | Inr tok \<Rightarrow>
                         r = None
                         \<and> world s' = snd (Auth_Init K a [auth_ClientToken tok] (snd t))
                         \<and> (\<exists>msg. log s' = log s @ [Ev_Auth_Generate a name gen (Inr acc),
                                             Ev_Auth_Token a cred (Inr tok),
                                             Ev_Auth_Init a [auth_ClientToken tok],
                                             Ev_logger_Infof msg])))
         \<and> (n = ''orders'' \<and> i = ''i1'' \<longrightarrow> n @ ''-'' @ i = ''orders-i1'' \<and> serviceType n = ''service'')"
proof
  have name: "Sprintf_v_v (service_Name K s) (Id' (Server_Options K (Server (opts s)) (world s))) = n @ ''-'' @ i"
    and sn: "service_Name K s = n"
    by (simp_all add: Sprintf_v_v_def service_Name_def n i)
  show "let name = n @ ''-'' @ i;
              gen = [auth_WithRoles [serviceType n], auth_WithNamespace ns];
              g = Auth_Generate K a name gen (world s)
          in case fst g of
               Inl err \<Rightarrow> r = Some err \<and> log s' = log s @ [Ev_Auth_Generate a name gen (Inl err)]
             | Inr acc \<Rightarrow>
                 (let cred = [auth_WithCredentials (ID acc) (Secret acc)];
                      t = Auth_Token K a cred (snd g)
                  in case fst t of
                       Inl err \<Rightarrow>
                         r = Some err
                         \<and> log s' = log s @ [Ev_Auth_Generate a name gen (Inr acc),
                                             Ev_Auth_Token a cred (Inl err)]
                     | Inr tok \<Rightarrow>
                         r = None
                         \<and> world s' = snd (Auth_Init K a [auth_ClientToken tok] (snd t))
                         \<and> (\<exists>msg. log s' = log s @ [Ev_Auth_Generate a name gen (Inr acc),
                                             Ev_Auth_Token a cred (Inr tok),
                                             Ev_Auth_Init a [auth_ClientToken tok],
                                             Ev_logger_Infof msg]))"
    using run unfolding registerAuthAccount_eq Let_def name
    unfolding sn a [symmetric] ns [symmetric]
    by (auto split: sum.splits)
next
  show "n = ''orders'' \<and> i = ''i1'' \<longrightarrow> n @ ''-'' @ i = ''orders-i1'' \<and> serviceType n = ''service''"
    by (simp add: serviceType_orders)
qed

lemma K0_simps:
  "Auth_Generate K0 = (\<lambda>_ _ _ w. (Inr \<lparr>ID = ''id0'', Secret = ''secret0''\<rparr>, Suc w))"
  "Auth_Token K0 = (\<lambda>_ _ w. (Inr ''token0'', Suc w))"
  "Auth_Init K0 = (\<lambda>_ _ w. (None, Suc w))"
  "Auth_Options K0 = (\<lambda>_ _. \<lparr>Namespace = ''ns''\<rparr>)"
  "Auth_String K0 = (\<lambda>_ _. ''service'')"
  "Server_Options K0 = (\<lambda>_ _. \<lparr>Name = ''orders'', Id' = ''i1'', Auth' = 1\<rparr>)"
  by (simp_all add: K0_def)

lemma reg0:
  "registerAuthAccount K0 service0 =
     (None, service0\<lparr>world := Suc (Suc (Suc 0)),
        log := [Ev_Auth_Generate 1 ''orders-i1'' [auth_WithRoles [''service''], auth_WithNamespace ''ns'']
                  (Inr \<lparr>ID = ''id0'', Secret = ''secret0''\<rparr>),
                Ev_Auth_Token 1 [auth_WithCredentials ''id0'' ''secret0''] (Inr ''token0''),
                Ev_Auth_Init 1 [auth_ClientToken ''token0''],
                Ev_logger_Infof ''Auth [service] Authenticated as orders-i1'']\<rparr>)"
  by (simp add: registerAuthAccount_eq Let_def service_Name_def Sprintf_v_v_def
      serviceType_orders K0_simps service0_def options0_def)

lemma service0_reads:
  "1 = Auth (opts service0)"
  "''orders'' = Name (Server_Options K0 (Server (opts service0)) (world service0))"
  "''i1'' = Id' (Server_Options K0 (Server (opts service0)) (world service0))"
  "''ns'' = Namespace (Auth_Options K0 1 (world service0))"
  by (simp_all add: K0_simps service0_def options0_def)

theorem registerAuthAccount_requests_witness:
  "registerAuthAccount K0 service0 =
     (None, service0\<lparr>world := Suc (Suc (Suc 0)),
        log := [Ev_Auth_Generate 1 ''orders-i1'' [auth_WithRoles [''service''], auth_WithNamespace ''ns'']
                  (Inr \<lparr>ID = ''id0'', Secret = ''secret0''\<rparr>),
                Ev_Auth_Token 1 [auth_WithCredentials ''id0'' ''secret0''] (Inr ''token0''),
                Ev_Auth_Init 1 [auth_ClientToken ''token0''],
                Ev_logger_Infof ''Auth [service] Authenticated as orders-i1'']\<rparr>)
   \<and> Auth (opts service0) = 1
   \<and> Name (Server_Options K0 (Server (opts service0)) (world service0)) = ''orders''
   \<and> Id' (Server_Options K0 (Server (opts service0)) (world service0)) = ''i1''
   \<and> Namespace (Auth_Options K0 1 (world service0)) = ''ns''
   \<and> ''orders'' @ ''-'' @ ''i1'' = ''orders-i1'' \<and> serviceType ''orders'' = ''service''"
proof -
  have "''orders'' = ''orders'' \<and> ''i1'' = ''i1'' \<longrightarrow>
          ''orders'' @ ''-'' @ ''i1'' = ''orders-i1'' \<and> serviceType ''orders'' = ''service''"
    using registerAuthAccount_requests [OF reg0 service0_reads] by (rule conjunct2)
  then have "''orders'' @ ''-'' @ ''i1'' = ''orders-i1'' \<and> serviceType ''orders'' = ''service''"
    by simp
  then show ?thesis
    using reg0 service0_reads [symmetric] by simp
qed

subsection \<open>Start and Stop\<close>

lemma hooks_until_error_failure:
  "first_failure i fns (world s) = Some (k, e, w') \<Longrightarrow>
     hooks_until_error ph i fns s =
       (Some e, s\<lparr>world := w', log := log s @ hook_events ph i (replicate (k - i) None @ [Some e])\<rparr>)
     \<and> i \<le> k \<and> k < i + length fns"
proof (induction fns arbitrary: i s)
  case Nil
  then show ?case by simp
next
  case (Cons fn fns)
  show ?case
  proof (cases "fst (fn (world s))")
    case (Some err)
    with Cons.prems show ?thesis
      by (simp add: call_eq split: prod.splits)
  next
    case None
    let ?s1 = "s\<lparr>world := snd (fn (world s)), log := log s @ [Ev_Hook ph i None]\<rparr>"
    from None Cons.prems have ff: "first_failure (Suc i) fns (world ?s1) = Some (k, e, w')"
      by (simp split: prod.splits)
    from Cons.IH [OF ff] have ih:
      "hooks_until_error ph (Suc i) fns ?s1 =
         (Some e, ?s1\<lparr>world := w', log := log ?s1 @ hook_events ph (Suc i) (replicate (k - Suc i) None @ [Some e])\<rparr>)"
      and bounds: "Suc i \<le> k" "k < Suc i + length fns"
      by simp_all
    from bounds have rep: "replicate (k - i) None = (None :: error option) # replicate (k - Suc i) None"
      by (simp add: Suc_diff_le replicate_Suc [symmetric] del: replicate_Suc)
    show ?thesis
      using None ih bounds by (simp add: call_eq rep)
  qed
qed

lemma hooks_until_error_success:
  "first_failure i fns (world s) = None \<Longrightarrow>
     hooks_until_error ph i fns s =
       (None, s\<lparr>world := snd (run_all fns (world s)),
                 log := log s @ hook_events ph i (replicate (length fns) None)\<rparr>)"
proof (induction fns arbitrary: i s)
  case Nil
  then show ?case by simp
next
  case (Cons fn fns)
  from Cons.prems have ok: "fst (fn (world s)) = None"
    by (simp split: prod.splits option.splits)
  let ?s1 = "s\<lparr>world := snd (fn (world s)), log := log s @ [Ev_Hook ph i None]\<rparr>"
  from ok Cons.prems have ff: "first_failure (Suc i) fns (world ?s1) = None"
    by (simp split: prod.splits)
  show ?case
    using ok Cons.IH [OF ff] by (simp add: call_eq split: prod.splits)
qed

text \<open>
  Claim C2. \<^verbatim>\<open>Start\<close> runs the hooks of \<^verbatim>\<open>BeforeStart\<close> in the order of the
  list. When the hook at place \<open>k\<close> is the first to return an error, \<^verbatim>\<open>Start\<close>
  returns exactly that error; the log then holds the \<open>k\<close> hooks before it, each
  with the result nil, then the failing hook, and nothing else: no later hook of
  \<^verbatim>\<open>BeforeStart\<close>, no \<^verbatim>\<open>Server.Start\<close>, no hook of \<^verbatim>\<open>AfterStart\<close>, and the
  world is the one the failing hook left. In particular with the hooks \<open>[A, B]\<close>
  where \<open>A\<close> succeeds and \<open>B\<close> fails, \<open>A\<close> and \<open>B\<close> run and nothing
  else does.
\<close>

theorem Start_aborts_at_first_failure:
  "(first_failure 0 (BeforeStart (opts s)) (world s) = Some (k, e, w') \<longrightarrow>
      Start K s =
        (Some e, s\<lparr>world := w',
                    log := log s @ hook_events Before_Start 0 (replicate k None @ [Some e])\<rparr>)
      \<and> k < length (BeforeStart (opts s)))
   \<and> (BeforeStart (opts s) = [A, B] \<and> A (world s) = (None, w1) \<and> B w1 = (Some e, w2) \<longrightarrow>
      Start K s =
        (Some e, s\<lparr>world := w2,
                    log := log s @ [Ev_Hook Before_Start 0 None, Ev_Hook Before_Start 1 (Some e)]\<rparr>))"
proof (intro conjI impI)
  assume ff: "first_failure 0 (BeforeStart (opts s)) (world s) = Some (k, e, w')"
  from hooks_until_error_failure [OF ff, of Before_Start]
  show "Start K s =
        (Some e, s\<lparr>world := w',
                    log := log s @ hook_events Before_Start 0 (replicate k None @ [Some e])\<rparr>)"
    and "k < length (BeforeStart (opts s))"
    by (simp_all add: Start_def)
next
  assume ab: "BeforeStart (opts s) = [A, B] \<and> A (world s) = (None, w1) \<and> B w1 = (Some e, w2)"
  then have ff: "first_failure 0 (BeforeStart (opts s)) (world s) = Some (Suc 0, e, w2)"
    by simp
  from hooks_until_error_failure [OF ff, of Before_Start]
  show "Start K s =
        (Some e, s\<lparr>world := w2,
                    log := log s @ [Ev_Hook Before_Start 0 None, Ev_Hook Before_Start 1 (Some e)]\<rparr>)"
    by (simp add: Start_def)
qed

lemma last_error_Cons_None: "last_error (g # None # rs) = last_error (g # rs)"
  by (cases g) (simp_all add: last_error_def Let_def)

lemma last_error_Cons_Some: "last_error (g # Some e # rs) = last_error (Some e # rs)"
  by (cases g) (simp_all add: last_error_def Let_def)

lemma last_error_None_Cons: "last_error (None # rs) = last_error rs"
  by (simp add: last_error_def Let_def)

lemma last_error_append: "last_error (last_error xs # ys) = last_error (xs @ ys)"
proof (cases "filter (\<lambda>r. r \<noteq> None) xs = []")
  case True
  then show ?thesis by (simp add: last_error_def Let_def)
next
  case False
  then have "last (filter (\<lambda>r. r \<noteq> None) xs) \<in> set (filter (\<lambda>r. r \<noteq> None) xs)"
    by (rule last_in_set)
  then have "last (filter (\<lambda>r. r \<noteq> None) xs) \<noteq> None"
    by simp
  with False show ?thesis
    by (simp add: last_error_def Let_def)
qed

lemma hook_events_append:
  "hook_events ph i (xs @ ys) = hook_events ph i xs @ hook_events ph (i + length xs) ys"
  by (induction xs arbitrary: i) simp_all

lemma hooks_keep_error_eq:
  "hooks_keep_error ph i fns g s =
     (last_error (g # fst (run_all fns (world s))),
      s\<lparr>world := snd (run_all fns (world s)),
        log := log s @ hook_events ph i (fst (run_all fns (world s)))\<rparr>)"
proof (induction fns arbitrary: i g s)
  case Nil
  show ?case by (cases g) (simp_all add: last_error_def)
next
  case (Cons fn fns)
  show ?case
  proof (cases "fst (fn (world s))")
    case None
    then show ?thesis
      by (simp add: call_eq Cons.IH last_error_Cons_None case_prod_beta)
  next
    case (Some err)
    then show ?thesis
      by (simp add: call_eq Cons.IH last_error_Cons_Some case_prod_beta)
  qed
qed

lemma length_run_all: "length (fst (run_all fns w)) = length fns"
  by (induction fns arbitrary: w) (simp_all add: case_prod_beta)

lemma Stop_eq:
  "Stop K s =
     (case run_all (BeforeStop (opts s)) (world s) of
        (rb, w1) \<Rightarrow>
          (case Server_Stop K (Server (opts s)) w1 of
             (Some err, w2) \<Rightarrow>
               (Some err,
                s\<lparr>world := w2,
                  log := log s @ hook_events Before_Stop 0 rb @ [Ev_Server_Stop (Server (opts s)) (Some err)]\<rparr>)
           | (None, w2) \<Rightarrow>
               (case run_all (AfterStop (opts s)) w2 of
                  (ra, w3) \<Rightarrow>
                    (last_error (rb @ ra),
                     s\<lparr>world := w3,
                       log := log s @ hook_events Before_Stop 0 rb @ [Ev_Server_Stop (Server (opts s)) None]
                                @ hook_events After_Stop 0 ra\<rparr>))))"
  by (auto simp: Stop_def hooks_keep_error_eq call_eq last_error_append last_error_None_Cons
      split: prod.splits option.splits)

lemma K0_Server: "Server_Start K0 = (\<lambda>_ w. (None, Suc w))" "Server_Stop K0 = (\<lambda>_ w. (None, Suc w))"
  by (simp_all add: K0_def)

lemma start3: "first_failure 0 (BeforeStart (opts service_start3)) (world service_start3)
   = Some (Suc 0, ''B failed'', Suc (Suc 0))"
  by (simp add: service_start3_def service0_def options0_def hook_ok_def hook_failing_def)

lemma start2:
  "BeforeStart (opts service_start2) = [hook_ok, hook_failing ''B failed'']
   \<and> hook_ok (world service_start2) = (None, Suc 0)
   \<and> hook_failing ''B failed'' (Suc 0) = (Some ''B failed'', Suc (Suc 0))"
  by (simp add: service_start2_def service0_def options0_def hook_ok_def hook_failing_def)

theorem Start_aborts_at_first_failure_witness:
  "first_failure 0 (BeforeStart (opts service_start3)) (world service_start3)
     = Some (Suc 0, ''B failed'', Suc (Suc 0))
   \<and> Start K0 service_start3 =
       (Some ''B failed'',
        service_start3\<lparr>world := Suc (Suc 0),
          log := [Ev_Hook Before_Start 0 None, Ev_Hook Before_Start (Suc 0) (Some ''B failed'')]\<rparr>)
   \<and> BeforeStart (opts service_start2) = [hook_ok, hook_failing ''B failed'']
   \<and> hook_ok (world service_start2) = (None, Suc 0)
   \<and> hook_failing ''B failed'' (Suc 0) = (Some ''B failed'', Suc (Suc 0))
   \<and> Start K0 service_start2 =
       (Some ''B failed'',
        service_start2\<lparr>world := Suc (Suc 0),
          log := [Ev_Hook Before_Start 0 None, Ev_Hook Before_Start 1 (Some ''B failed'')]\<rparr>)"
proof -
  have l3: "log service_start3 = []" and l2: "log service_start2 = []"
    by (simp_all add: service_start3_def service_start2_def service0_def)
  from Start_aborts_at_first_failure [where s = service_start3 and k = "Suc 0" and e = "''B failed''"
      and w' = "Suc (Suc 0)" and K = K0]
  have a: "Start K0 service_start3 =
       (Some ''B failed'',
        service_start3\<lparr>world := Suc (Suc 0),
          log := [Ev_Hook Before_Start 0 None, Ev_Hook Before_Start (Suc 0) (Some ''B failed'')]\<rparr>)"
    using start3 by (simp add: l3)
  from Start_aborts_at_first_failure [where s = service_start2 and e = "''B failed''" and K = K0
      and A = hook_ok and B = "hook_failing ''B failed''" and ?w1.0 = "Suc 0" and ?w2.0 = "Suc (Suc 0)"]
  have b: "Start K0 service_start2 =
       (Some ''B failed'',
        service_start2\<lparr>world := Suc (Suc 0),
          log := [Ev_Hook Before_Start 0 None, Ev_Hook Before_Start 1 (Some ''B failed'')]\<rparr>)"
    using start2 by (simp add: l2)
  from a b start3 start2 show ?thesis by simp
qed

lemma last_error_None:
  assumes "last_error rs = None"
  shows "filter (\<lambda>r. r \<noteq> None) rs = []"
proof (rule ccontr)
  assume ne: "filter (\<lambda>r. r \<noteq> None) rs \<noteq> []"
  then have "last (filter (\<lambda>r. r \<noteq> None) rs) \<in> set (filter (\<lambda>r. r \<noteq> None) rs)"
    by (rule last_in_set)
  then have "last (filter (\<lambda>r. r \<noteq> None) rs) \<noteq> None"
    by simp
  with ne assms show False
    by (simp add: last_error_def Let_def)
qed

text \<open>
  Claim C3. \<^verbatim>\<open>Stop\<close> runs every hook of \<^verbatim>\<open>BeforeStop\<close> in order, whatever they
  return. Then \<^verbatim>\<open>Server.Stop\<close> is called: when it fails, \<^verbatim>\<open>Stop\<close> returns that
  error at once, no hook of \<^verbatim>\<open>AfterStop\<close> runs and an error kept from
  \<^verbatim>\<open>BeforeStop\<close> is lost. Otherwise every hook of \<^verbatim>\<open>AfterStop\<close> runs in order and
  \<^verbatim>\<open>Stop\<close> returns the last error that any hook of the two lists returned, or nil
  when none did. In particular with the hooks \<open>[A, B]\<close> before the stop, \<open>A\<close>
  failing and \<open>B\<close>, the shutdown and the hooks after it succeeding, both hooks run
  and \<^verbatim>\<open>Stop\<close> returns the error of \<open>A\<close>.
\<close>

theorem Stop_runs_every_hook:
  "Stop K s =
     (case run_all (BeforeStop (opts s)) (world s) of
        (rb, w1) \<Rightarrow>
          (case Server_Stop K (Server (opts s)) w1 of
             (Some err, w2) \<Rightarrow>
               (Some err,
                s\<lparr>world := w2,
                  log := log s @ hook_events Before_Stop 0 rb @ [Ev_Server_Stop (Server (opts s)) (Some err)]\<rparr>)
           | (None, w2) \<Rightarrow>
               (case run_all (AfterStop (opts s)) w2 of
                  (ra, w3) \<Rightarrow>
                    (last_error (rb @ ra),
                     s\<lparr>world := w3,
                       log := log s @ hook_events Before_Stop 0 rb @ [Ev_Server_Stop (Server (opts s)) None]
                                @ hook_events After_Stop 0 ra\<rparr>))))
   \<and> length (fst (run_all (BeforeStop (opts s)) (world s))) = length (BeforeStop (opts s))
   \<and> (\<forall>w. length (fst (run_all (AfterStop (opts s)) w)) = length (AfterStop (opts s)))
   \<and> (BeforeStop (opts s) = [A, B] \<and> A (world s) = (Some e, w1) \<and> B w1 = (None, w2)
        \<and> Server_Stop K (Server (opts s)) w2 = (None, w3)
        \<and> run_all (AfterStop (opts s)) w3 = (ra, w4) \<and> last_error ra = None \<longrightarrow>
      Stop K s =
        (Some e,
         s\<lparr>world := w4,
           log := log s @ [Ev_Hook Before_Stop 0 (Some e), Ev_Hook Before_Stop 1 None,
                           Ev_Server_Stop (Server (opts s)) None]
                    @ hook_events After_Stop 0 ra\<rparr>))"
proof (intro conjI impI allI)
  assume ab: "BeforeStop (opts s) = [A, B] \<and> A (world s) = (Some e, w1) \<and> B w1 = (None, w2)
        \<and> Server_Stop K (Server (opts s)) w2 = (None, w3)
        \<and> run_all (AfterStop (opts s)) w3 = (ra, w4) \<and> last_error ra = None"
  then have rb: "run_all (BeforeStop (opts s)) (world s) = ([Some e, None], w2)"
    by simp
  from ab have "last_error ra = None"
    by simp
  then have "filter (\<lambda>r. r \<noteq> None) ra = []"
    by (rule last_error_None)
  then have "last_error ([Some e, None] @ ra) = Some e"
    by (simp add: last_error_def Let_def)
  with ab rb show "Stop K s =
        (Some e,
         s\<lparr>world := w4,
           log := log s @ [Ev_Hook Before_Stop 0 (Some e), Ev_Hook Before_Stop 1 None,
                           Ev_Server_Stop (Server (opts s)) None]
                    @ hook_events After_Stop 0 ra\<rparr>)"
    by (simp add: Stop_eq)
qed (simp_all only: Stop_eq length_run_all)

lemma stop2:
  "BeforeStop (opts service_stop2) = [hook_failing ''A failed'', hook_ok]
   \<and> hook_failing ''A failed'' (world service_stop2) = (Some ''A failed'', Suc 0)
   \<and> hook_ok (Suc 0) = (None, Suc (Suc 0))
   \<and> Server_Stop K0 (Server (opts service_stop2)) (Suc (Suc 0)) = (None, Suc (Suc (Suc 0)))
   \<and> run_all (AfterStop (opts service_stop2)) (Suc (Suc (Suc 0))) = ([None], Suc (Suc (Suc (Suc 0))))
   \<and> last_error [None] = None"
  by (simp add: service_stop2_def service0_def options0_def hook_ok_def hook_failing_def K0_Server
      last_error_def)

theorem Stop_runs_every_hook_witness:
  "BeforeStop (opts service_stop2) = [hook_failing ''A failed'', hook_ok]
   \<and> hook_failing ''A failed'' (world service_stop2) = (Some ''A failed'', Suc 0)
   \<and> hook_ok (Suc 0) = (None, Suc (Suc 0))
   \<and> Server_Stop K0 (Server (opts service_stop2)) (Suc (Suc 0)) = (None, Suc (Suc (Suc 0)))
   \<and> run_all (AfterStop (opts service_stop2)) (Suc (Suc (Suc 0))) = ([None], Suc (Suc (Suc (Suc 0))))
   \<and> last_error [None] = None
   \<and> Stop K0 service_stop2 =
       (Some ''A failed'',
        service_stop2\<lparr>world := Suc (Suc (Suc (Suc 0))),
          log := [Ev_Hook Before_Stop 0 (Some ''A failed''), Ev_Hook Before_Stop 1 None,
                  Ev_Server_Stop 6 None, Ev_Hook After_Stop 0 None]\<rparr>)"
proof -
  have l: "log service_stop2 = []" and srv: "Server (opts service_stop2) = 6"
    by (simp_all add: service_stop2_def service0_def options0_def)
  from Stop_runs_every_hook [where s = service_stop2 and K = K0 and A = "hook_failing ''A failed''" and B = hook_ok
      and e = "''A failed''" and ?w1.0 = "Suc 0" and ?w2.0 = "Suc (Suc 0)" and ?w3.0 = "Suc (Suc (Suc 0))"
      and ra = "[None]" and ?w4.0 = "Suc (Suc (Suc (Suc 0)))"]
  have "BeforeStop (opts service_stop2) = [hook_failing ''A failed'', hook_ok]
        \<and> hook_failing ''A failed'' (world service_stop2) = (Some ''A failed'', Suc 0)
        \<and> hook_ok (Suc 0) = (None, Suc (Suc 0))
        \<and> Server_Stop K0 (Server (opts service_stop2)) (Suc (Suc 0)) = (None, Suc (Suc (Suc 0)))
        \<and> run_all (AfterStop (opts service_stop2)) (Suc (Suc (Suc 0))) = ([None], Suc (Suc (Suc (Suc 0))))
        \<and> last_error [None] = None \<longrightarrow>
      Stop K0 service_stop2 =
        (Some ''A failed'',
         service_stop2\<lparr>world := Suc (Suc (Suc (Suc 0))),
           log := log service_stop2 @ [Ev_Hook Before_Stop 0 (Some ''A failed''), Ev_Hook Before_Stop 1 None,
                           Ev_Server_Stop (Server (opts service_stop2)) None]
                    @ hook_events After_Stop 0 [None]\<rparr>)"
    by (elim conjE)
  with stop2 show ?thesis
    by (simp add: l srv)
qed

subsection \<open>Construction\<close>

text \<open>
  Claim C5. \<^verbatim>\<open>newService\<close> wraps the client bottom-up: the client of the options,
  then the From-Service header, then the trace span, then the auth credential, so
  the auth layer is outermost and acts first on an outbound call. It registers the
  handler wrappers with one \<^verbatim>\<open>Server.Init\<close> in the order stats, trace, auth; run
  outermost-to-innermost in that order, stats has the widest scope and the auth
  check is the last gate before the user handler.
\<close>

theorem newService_wrapping:
  "(let s = newService K options w;
        srv = Server options;
        n = Name (Server_Options K srv w);
        i = Id' (Server_Options K srv w);
        wraps = [server_WrapHandler (wrapper_HandlerStats stats_DefaultStats),
                 server_WrapHandler (wrapper_TraceHandler trace_DefaultTracer),
                 server_WrapHandler (wrapper_AuthHandler (authFn srv))]
    in Client (opts s) =
         wrapper_AuthClient n i (authFn srv)
           (wrapper_TraceCall n trace_DefaultTracer
              (wrapper_FromService n (Client options)))
       \<and> opts s = options\<lparr>Client := Client (opts s)\<rparr>
       \<and> outbound_steps (Client (opts s)) =
           attach_auth_credential # attach_trace_span # inject_From_Service # outbound_steps (Client options)
       \<and> log s = [Ev_Server_Init srv wraps]
       \<and> inbound_steps wraps = [collect_stats, create_trace_span, verify_auth_credential, user_handler])"
  by (simp add: newService_def Let_def call_eq)

lemma new0:
  "newService K0 options0 0 =
     \<lparr>opts = options0\<lparr>Client := wrapper_AuthClient ''orders'' ''i1'' (authFn 6)
                (wrapper_TraceCall ''orders'' trace_DefaultTracer
                   (wrapper_FromService ''orders'' (client_of 4)))\<rparr>,
      once = False, world = Suc 0,
      log = [Ev_Server_Init 6
               [server_WrapHandler (wrapper_HandlerStats stats_DefaultStats),
                server_WrapHandler (wrapper_TraceHandler trace_DefaultTracer),
                server_WrapHandler (wrapper_AuthHandler (authFn 6))]]\<rparr>"
  by (simp add: newService_def Let_def call_eq K0_def options0_def)

theorem newService_wrapping_witness:
  "outbound_steps (Client (opts (newService K0 options0 0))) =
     [attach_auth_credential, attach_trace_span, inject_From_Service, base_client 4]
   \<and> log (newService K0 options0 0) =
       [Ev_Server_Init 6
          [server_WrapHandler (wrapper_HandlerStats stats_DefaultStats),
           server_WrapHandler (wrapper_TraceHandler trace_DefaultTracer),
           server_WrapHandler (wrapper_AuthHandler (authFn 6))]]"
  using newService_wrapping [of K0 options0 0]
  by (simp add: Let_def options0_def)

subsection \<open>Init\<close>

lemma setup_plugins_returns:
  "setup_plugins K ps s = Init_returns s' \<Longrightarrow>
     \<exists>pre. log s' = log s @ pre \<and> list_all is_prelude pre
       \<and> loaded_plugins pre = filter (\<lambda>p. p \<noteq> []) ps
       \<and> opts s' = opts s \<and> once s' = once s"
proof (induction ps arbitrary: s)
  case Nil
  then show ?case by simp
next
  case (Cons p ps)
  show ?case
  proof (cases "p = []")
    case True
    with Cons.prems have "setup_plugins K ps s = Init_returns s'"
      by simp
    from Cons.IH [OF this] True show ?thesis
      by simp
  next
    case False
    let ?l = "plugin_Load K p (world s)"
    from False Cons.prems obtain c where c: "fst ?l = Inr c"
      by (cases "fst ?l") (simp_all add: call_eq)
    let ?s1 = "s\<lparr>world := snd ?l, log := log s @ [Ev_plugin_Load p (Inr c)]\<rparr>"
    let ?i = "plugin_Init K c (world ?s1)"
    from False Cons.prems c have i: "fst ?i = None"
      by (cases "fst ?i") (simp_all add: call_eq)
    let ?s2 = "?s1\<lparr>world := snd ?i, log := log ?s1 @ [Ev_plugin_Init c None]\<rparr>"
    from False Cons.prems c i have "setup_plugins K ps ?s2 = Init_returns s'"
      by (simp add: call_eq)
    from Cons.IH [OF this] obtain pre where pre:
      "log s' = log ?s2 @ pre" "list_all is_prelude pre"
      "loaded_plugins pre = filter (\<lambda>p. p \<noteq> []) ps" "opts s' = opts ?s2" "once s' = once ?s2"
      by blast
    let ?pre = "Ev_plugin_Load p (Inr c) # Ev_plugin_Init c None # pre"
    from pre False have "log s' = log s @ ?pre \<and> list_all is_prelude ?pre
       \<and> loaded_plugins ?pre = filter (\<lambda>p. p \<noteq> []) (p # ps)
       \<and> opts s' = opts s \<and> once s' = once s"
      by simp
    then show ?thesis by blast
  qed
qed


lemma Init_when_done:
  "once s \<Longrightarrow>
     Init K os s =
       Init_returns (s\<lparr>opts := fst (process_options os (opts s) (world s)),
                       world := snd (process_options os (opts s) (world s))\<rparr>)"
  by (simp add: Init_def once_Do_def case_prod_beta)


lemma loaded_plugins_append:
  "loaded_plugins (xs @ ys) = loaded_plugins xs @ loaded_plugins ys"
  by (induction xs rule: loaded_plugins.induct) simp_all

lemma call_proj:
  "opts (snd (call ev f s)) = opts s"
  "once (snd (call ev f s)) = once s"
  "world (snd (call ev f s)) = snd (f (world s))"
  "log (snd (call ev f s)) = log s @ [ev (fst (f (world s)))]"
  "fst (call ev f s) = fst (f (world s))"
  by (simp_all add: call_eq)


lemma cmd_stored_Cmd: "Cmd (cmd_stored c opt) = Cmd opt"
  by (simp add: cmd_stored_def)

lemma once_body_returns:
  assumes "once_body K s = Init_returns s'"
  shows "\<exists>pre name. log s' = log s @ pre @ gated_steps (opts s') name
           \<and> list_all is_prelude pre
           \<and> loaded_plugins pre =
               filter (\<lambda>p. p \<noteq> []) (Split (os_Getenv K ''MICRO_PLUGIN'' (world s)) CHR '','')
           \<and> once s' = once s"
proof -
  let ?ps = "Split (os_Getenv K ''MICRO_PLUGIN'' (world s)) CHR '',''"
  from assms obtain s1 where sp: "setup_plugins K ?ps s = Init_returns s1"
    by (cases "setup_plugins K ?ps s") (simp_all add: once_body_def)
  from setup_plugins_returns [OF sp] obtain pre1 where pre1:
    "log s1 = log s @ pre1" "list_all is_prelude pre1"
    "loaded_plugins pre1 = filter (\<lambda>p. p \<noteq> []) ?ps" "opts s1 = opts s" "once s1 = once s"
    by blast
  let ?c = "Cmd (opts s1)"
  let ?unset = "Cmd_App_Name K ?c (world s1) = []"
  define pre2 where "pre2 = (if ?unset then [Ev_Cmd_App_SetName ?c (service_Name K s1)] else [])"
  have pre2: "list_all is_prelude pre2" "loaded_plugins (pre1 @ pre2) = loaded_plugins pre1"
    by (simp_all add: pre2_def loaded_plugins_append)
  from assms sp have "\<exists>name. log s' = log s1 @ pre2 @ gated_steps (opts s') name \<and> once s' = once s1"
    by (cases ?unset)
      (auto simp: once_body_def Let_def call_proj case_prod_beta pre2_def gated_steps_def
        cmd_stored_Cmd split: option.splits)
  then obtain name where "log s' = log s1 @ pre2 @ gated_steps (opts s') name" "once s' = once s1"
    by blast
  with pre1 pre2 have "log s' = log s @ (pre1 @ pre2) @ gated_steps (opts s') name
           \<and> list_all is_prelude (pre1 @ pre2)
           \<and> loaded_plugins (pre1 @ pre2) = filter (\<lambda>p. p \<noteq> []) ?ps
           \<and> once s' = once s"
    by simp
  then show ?thesis by blast
qed

lemma Init_first:
  assumes "\<not> once s" and "Init K os s = Init_returns s'"
  shows "once s'
    \<and> (\<exists>pre name. log s' = log s @ pre @ gated_steps (opts s') name
          \<and> list_all is_prelude pre
          \<and> loaded_plugins pre =
              filter (\<lambda>p. p \<noteq> [])
                (Split (os_Getenv K ''MICRO_PLUGIN'' (snd (process_options os (opts s) (world s)))) CHR '',''))"
proof -
  let ?s0 = "s\<lparr>opts := fst (process_options os (opts s) (world s)),
               world := snd (process_options os (opts s) (world s))\<rparr>"
  from assms obtain s1 where b: "once_body K ?s0 = Init_returns s1" and s': "s' = s1\<lparr>once := True\<rparr>"
    by (cases "once_body K ?s0") (auto simp: Init_def once_Do_def case_prod_beta)
  from once_body_returns [OF b] s' show ?thesis
    by auto
qed






lemma K0_Init_simps:
  "os_Getenv K0 = (\<lambda>_ _. [])"
  "Cmd_App_Name K0 = (\<lambda>_ _. ''orders'')"
  "Cmd_Init K0 = (\<lambda>_ c w. ((None, c), Suc w))"
  "Store_Init K0 = (\<lambda>_ _ w. (None, Suc w))"
  "Registry_Init K0 = (\<lambda>_ _ w. (None, Suc w))"
  "Runtime_Init K0 = (\<lambda>_ _ w. (None, Suc w))"
  by (simp_all add: K0_def)

lemma cmd_stored_pointers: "cmd_stored (cmd_pointers opt) opt = opt"
  by (simp add: cmd_stored_def cmd_pointers_def)

lemma once_body0: "once_body K0 service0 = Init_returns (service1\<lparr>once := False\<rparr>)"
  by (simp add: once_body_def Let_def call_eq K0_Init_simps K0_simps cmd_stored_pointers
      service0_def service1_def options0_def eval_nat_numeral)

lemma Init0: "Init K0 [] service0 = Init_returns service1"
  using once_body0 by (simp add: Init_def once_Do_def service0_def service1_def)

lemma Init1: "Init K0 [] service1 = Init_returns service1"
  by (simp add: Init_when_done service1_def)




text \<open>
  Claim C8 says that the binding of the store's table and the cross-wiring run on
  every call of \<^verbatim>\<open>Init\<close>, outside the gate. On the sample process the first call
  binds and wires once, and a second call returns the very same state: its log has
  no new entry.
\<close>

theorem Init_again_repeats_no_wiring:
  "Init K0 [] service0 = Init_returns service1
   \<and> Init K0 [] service1 = Init_returns service1
   \<and> log service1 =
       [Ev_Cmd_Init 3 None,
        Ev_Store_Init 7 [store_Table ''orders''],
        Ev_Auth_Init 1 [auth_WithClient (client_of 4)],
        Ev_Registry_Init 8 [srvRegistry_WithClient (client_of 4)],
        Ev_Runtime_Init 9 [runtime_WithClient (client_of 4)],
        Ev_Store_Init 7 [store_WithClient (client_of 4)]]"
  using Init0 Init1 by (simp add: service1_def)

text \<open>
  Claim C8, amended. The gate covers the whole sequence, the binding of the store's
  table and the cross-wiring included: they are statements of the function given to
  \<^verbatim>\<open>once.Do\<close>. A call of \<^verbatim>\<open>Init\<close> on a service whose gate has fired only applies
  its overrides and writes nothing to the log. A call that returns on a service whose
  gate has not fired sets the gate and writes, after the entries of the plugins and
  of the name default, the entry of the flag parsing followed by the table binding
  and the wiring of auth, registry, runtime and store, each once.
\<close>

theorem Init_gate_covers_wiring:
  "(once s \<longrightarrow>
      Init K os s =
        Init_returns (s\<lparr>opts := fst (process_options os (opts s) (world s)),
                        world := snd (process_options os (opts s) (world s))\<rparr>))
   \<and> (\<not> once s \<and> Init K os s = Init_returns s' \<longrightarrow>
        once s'
        \<and> (\<exists>pre name. log s' = log s @ pre @ gated_steps (opts s') name \<and> list_all is_prelude pre))"
proof (intro conjI impI)
  assume "once s"
  then show "Init K os s =
        Init_returns (s\<lparr>opts := fst (process_options os (opts s) (world s)),
                        world := snd (process_options os (opts s) (world s))\<rparr>)"
    by (rule Init_when_done)
next
  assume a: "\<not> once s \<and> Init K os s = Init_returns s'"
  then have n: "\<not> once s" and r: "Init K os s = Init_returns s'"
    by simp_all
  from Init_first [OF n r] show "once s'"
    by simp
  from Init_first [OF n r]
  show "\<exists>pre name. log s' = log s @ pre @ gated_steps (opts s') name \<and> list_all is_prelude pre"
    by blast
qed

theorem Init_gate_covers_wiring_witness:
  "once service1
   \<and> Init K0 [no_Signal] service1 = Init_returns (service1\<lparr>opts := options0\<lparr>Signal := False\<rparr>\<rparr>)
   \<and> \<not> once service0
   \<and> Init K0 [] service0 = Init_returns service1
   \<and> log service1 = log service0 @ [] @ gated_steps (opts service1) ''orders''
   \<and> list_all is_prelude []"
proof -
  have o: "once service1" and n: "\<not> once service0"
    by (simp_all add: service1_def service0_def)
  have p: "process_options [no_Signal] (opts service1) (world service1)
           = (options0\<lparr>Signal := False\<rparr>, world service1)"
    by (simp add: no_Signal_def service1_def)
  from Init_gate_covers_wiring [of service1 K0 "[no_Signal]"] o
  have "Init K0 [no_Signal] service1 =
        Init_returns (service1\<lparr>opts := fst (process_options [no_Signal] (opts service1) (world service1)),
                        world := snd (process_options [no_Signal] (opts service1) (world service1))\<rparr>)"
    by blast
  then have a: "Init K0 [no_Signal] service1 = Init_returns (service1\<lparr>opts := options0\<lparr>Signal := False\<rparr>\<rparr>)"
    unfolding p by (simp add: service1_def)
  have b: "log service1 = log service0 @ [] @ gated_steps (opts service1) ''orders''"
    by (simp add: gated_steps_def service1_def service0_def options0_def)
  from o n a b Init0 show ?thesis
    by simp
qed

lemma setup_plugins_without:
  "setup_plugins (without_Init_errors K) ps s = setup_plugins K ps s"
  by (induction ps arbitrary: s)
    (simp_all add: without_Init_errors_def call_eq split: sum.split option.split)

lemma once_body_without:
  "once_body (without_Init_errors K) s = once_body K s"
proof -
  have r: "os_Getenv (without_Init_errors K) = os_Getenv K"
    "Cmd_App_Name (without_Init_errors K) = Cmd_App_Name K"
    "Cmd_App_SetName (without_Init_errors K) = Cmd_App_SetName K"
    "Cmd_Init (without_Init_errors K) = Cmd_Init K"
    "Server_Options (without_Init_errors K) = Server_Options K"
    "Store_Init (without_Init_errors K) = (\<lambda>r os w. (None, snd (Store_Init K r os w)))"
    "Auth_Init (without_Init_errors K) = (\<lambda>r os w. (None, snd (Auth_Init K r os w)))"
    "Registry_Init (without_Init_errors K) = (\<lambda>r os w. (None, snd (Registry_Init K r os w)))"
    "Runtime_Init (without_Init_errors K) = (\<lambda>r os w. (None, snd (Runtime_Init K r os w)))"
    by (simp_all add: without_Init_errors_def)
  have c: "\<And>ev f s. snd (call (\<lambda>_. ev) (\<lambda>w. (None :: error option, snd (f w))) s)
                    = snd (call (\<lambda>_. ev) f s)"
    by (simp add: call_eq)
  show ?thesis
  proof (cases "setup_plugins K (Split (os_Getenv K ''MICRO_PLUGIN'' (world s)) CHR '','') s")
    case (Init_exits s1)
    then show ?thesis
      by (simp add: once_body_def setup_plugins_without r)
  next
    case (Init_returns s1)
    then show ?thesis
      by (simp add: once_body_def setup_plugins_without r call_eq Let_def case_prod_beta
          service_Name_def split: option.split)
  qed
qed

lemma once_body_without_fun: "once_body (without_Init_errors K) = once_body K"
  by (rule ext) (rule once_body_without)

text \<open>
  Claim C9, amended. Failures of step 4 and step 5 are not propagated: \<^verbatim>\<open>Init\<close>
  has no result, the errors that the \<^verbatim>\<open>Init\<close> methods of store, auth, registry and
  runtime return are dropped, and the outcome of \<^verbatim>\<open>Init\<close> (return or exit, options,
  world and log) is what it would be had these methods returned nil.
\<close>

theorem Init_drops_Init_errors:
  "Init (without_Init_errors K) os s = Init K os s"
  by (simp add: Init_def once_body_without_fun)

lemma K_failing_simps:
  "os_Getenv K_failing_Init = (\<lambda>_ _. [])"
  "Cmd_App_Name K_failing_Init = (\<lambda>_ _. ''orders'')"
  "Cmd_Init K_failing_Init = (\<lambda>_ c w. ((None, c), Suc w))"
  "Store_Init K_failing_Init = (\<lambda>_ _ w. (Some ''store unavailable'', Suc w))"
  "Auth_Init K_failing_Init = (\<lambda>_ _ w. (Some ''auth unavailable'', Suc w))"
  "Registry_Init K_failing_Init = (\<lambda>_ _ w. (Some ''registry unavailable'', Suc w))"
  "Runtime_Init K_failing_Init = (\<lambda>_ _ w. (Some ''runtime unavailable'', Suc w))"
  by (simp_all add: K_failing_Init_def K0_def)

lemma once_body_failing: "once_body K_failing_Init service0 = Init_returns (service1\<lparr>once := False\<rparr>)"
  by (simp add: once_body_def Let_def call_eq K_failing_simps cmd_stored_pointers
      service0_def service1_def options0_def eval_nat_numeral)

text \<open>
  Claim C9 says that a failure of step 4 or 5 is returned by \<^verbatim>\<open>Init\<close> to its
  caller. With collaborators whose five calls of steps 4 and 5 all fail, \<^verbatim>\<open>Init\<close>
  on the sample process returns, with the same state as with collaborators that
  succeed: the caller is handed no error and cannot tell the two apart.
\<close>

theorem Init_returns_despite_failed_wiring:
  "fst (Store_Init K_failing_Init 7 [store_Table ''orders''] 1) = Some ''store unavailable''
   \<and> fst (Auth_Init K_failing_Init 1 [auth_WithClient (client_of 4)] 2) = Some ''auth unavailable''
   \<and> fst (Registry_Init K_failing_Init 8 [srvRegistry_WithClient (client_of 4)] 3) = Some ''registry unavailable''
   \<and> fst (Runtime_Init K_failing_Init 9 [runtime_WithClient (client_of 4)] 4) = Some ''runtime unavailable''
   \<and> fst (Store_Init K_failing_Init 7 [store_WithClient (client_of 4)] 5) = Some ''store unavailable''
   \<and> Init K_failing_Init [] service0 = Init_returns service1
   \<and> Init K0 [] service0 = Init_returns service1"
  using once_body_failing Init0
  by (simp add: K_failing_simps Init_def once_Do_def service0_def service1_def)

theorem Init_drops_Init_errors_witness:
  "Init (without_Init_errors K_failing_Init) [] service0 = Init_returns service1"
  using Init_drops_Init_errors [of K_failing_Init "[]" service0] once_body_failing
  by (simp add: Init_def once_Do_def service0_def service1_def)

subsection \<open>Run\<close>

lemma hook_events_quiet:
  "\<not> list_ex is_accept (hook_events ph i rs)" "\<not> list_ex is_auth_request (hook_events ph i rs)"
  by (induction rs arbitrary: i) simp_all

lemma hooks_until_error_log:
  "\<exists>rs. log (snd (hooks_until_error ph i fns s)) = log s @ hook_events ph i rs"
proof (cases "first_failure i fns (world s)")
  case None
  from hooks_until_error_success [OF None, of ph] show ?thesis
    by auto
next
  case (Some t)
  then obtain k e w' where "first_failure i fns (world s) = Some (k, e, w')"
    by (cases t) auto
  from hooks_until_error_failure [OF this, of ph] show ?thesis
    by auto
qed

lemma hooks_until_error_opts: "opts (snd (hooks_until_error ph i fns s)) = opts s"
  by (induction fns arbitrary: i s) (simp_all add: call_proj case_prod_beta split: option.split)

lemma Start_log:
  "\<exists>evs. log (snd (Start K s)) = log s @ evs \<and> \<not> list_ex is_auth_request evs"
proof -
  let ?b = "hooks_until_error Before_Start 0 (BeforeStart (opts s)) s"
  obtain rb where rb: "log (snd ?b) = log s @ hook_events Before_Start 0 rb"
    using hooks_until_error_log by blast
  show ?thesis
  proof (cases "fst ?b")
    case (Some err)
    then have "snd (Start K s) = snd ?b"
      by (simp add: Start_def case_prod_beta)
    with rb hook_events_quiet show ?thesis
      by auto
  next
    case None
    let ?c = "call (Ev_Server_Start (Server (opts (snd ?b)))) (Server_Start K (Server (opts (snd ?b)))) (snd ?b)"
    let ?a = "hooks_until_error After_Start 0 (AfterStart (opts (snd ?c))) (snd ?c)"
    obtain ra where ra: "log (snd ?a) = log (snd ?c) @ hook_events After_Start 0 ra"
      using hooks_until_error_log by blast
    show ?thesis
    proof (cases "fst ?c")
      case (Some err)
      with None have "snd (Start K s) = snd ?c"
        by (simp add: Start_def case_prod_beta)
      with rb hook_events_quiet show ?thesis
        by (auto simp: call_proj)
    next
      case None': None
      with None have "snd (Start K s) = snd ?a"
        by (simp add: Start_def case_prod_beta)
      with rb ra hook_events_quiet show ?thesis
        by (auto simp: call_proj)
    qed
  qed
qed

lemma Stop_log:
  "\<exists>evs. log (snd (Stop K s)) = log s @ evs \<and> \<not> list_ex is_auth_request evs \<and> \<not> list_ex is_accept evs"
  by (auto simp: Stop_eq case_prod_beta hook_events_quiet split: option.split)

lemma registerAuthAccount_log:
  "\<exists>reg. log (snd (registerAuthAccount K s)) = log s @ reg
     \<and> bootstrap_entries (fst (registerAuthAccount K s)) reg"
  unfolding registerAuthAccount_eq Let_def bootstrap_entries_def
  by (simp split: sum.split)

lemma registerAuthAccount_opts: "opts (snd (registerAuthAccount K s)) = opts s"
  unfolding registerAuthAccount_eq Let_def
  by (simp split: sum.split)

lemma Run_started_log:
  "\<exists>pre reg post r.
      log (Run_state (Run_started K s)) = log s @ pre @ reg @ post
      \<and> \<not> list_ex is_accept pre \<and> \<not> list_ex is_auth_request pre
      \<and> \<not> list_ex is_auth_request post
      \<and> bootstrap_entries r reg
      \<and> (\<forall>e. r = Some e \<longrightarrow>
            Run_started K s = Run_returns (Some e) (Run_state (Run_started K s)) \<and> post = [])"
proof -
  define s1 where "s1 =
    (if logger_V K (world s)
     then emit (Ev_logger_Infof (''Starting [service] '' @ service_Name K s)) s
     else s)"
  define pre where "pre =
    (if logger_V K (world s)
     then [Ev_logger_Infof (''Starting [service] '' @ service_Name K s)]
     else [])"
  have s1: "log s1 = log s @ pre"
    by (simp add: s1_def pre_def emit_def)
  have pre: "\<not> list_ex is_accept pre" "\<not> list_ex is_auth_request pre"
    by (simp_all add: pre_def)
  let ?reg = "registerAuthAccount K s1"
  obtain reg where reg: "log (snd ?reg) = log s1 @ reg" "bootstrap_entries (fst ?reg) reg"
    using registerAuthAccount_log by blast
  have unfold: "Run_started K s =
     (case ?reg of
        (Some err, s2) \<Rightarrow> Run_returns (Some err) s2
      | (None, s2) \<Rightarrow>
          (case Start K s2 of
             (Some err, s3) \<Rightarrow> Run_returns (Some err) s3
           | (None, s3) \<Rightarrow>
               (if (Signal (opts s3) \<and> signal_delivered K (world s3))
                   \<or> Context_Done K (Context (opts s3)) (world s3)
                then (case Stop K s3 of (r, s4) \<Rightarrow> Run_returns r s4)
                else Run_blocks s3)))"
    unfolding Run_started_def s1_def Let_def ..
  show ?thesis
  proof (cases "fst ?reg")
    case (Some e)
    then have "Run_started K s = Run_returns (Some e) (snd ?reg)"
      by (simp add: unfold case_prod_beta)
    with Some s1 reg pre
    have "log (Run_state (Run_started K s)) = log s @ pre @ reg @ []
      \<and> \<not> list_ex is_accept pre \<and> \<not> list_ex is_auth_request pre
      \<and> \<not> list_ex is_auth_request []
      \<and> bootstrap_entries (fst ?reg) reg
      \<and> (\<forall>e. fst ?reg = Some e \<longrightarrow>
            Run_started K s = Run_returns (Some e) (Run_state (Run_started K s)) \<and> [] = ([] :: event list))"
      by simp
    then show ?thesis by blast
  next
    case None
    let ?st = "Start K (snd ?reg)"
    obtain evs1 where evs1: "log (snd ?st) = log (snd ?reg) @ evs1" "\<not> list_ex is_auth_request evs1"
      using Start_log by blast
    obtain evs2 where evs2: "log (snd (Stop K (snd ?st))) = log (snd ?st) @ evs2"
      "\<not> list_ex is_auth_request evs2"
      using Stop_log by blast
    have "\<exists>post. log (Run_state (Run_started K s)) = log (snd ?reg) @ post
            \<and> \<not> list_ex is_auth_request post"
    proof (cases "fst ?st")
      case (Some err)
      with None have "Run_started K s = Run_returns (Some err) (snd ?st)"
        by (simp add: unfold case_prod_beta)
      with evs1 show ?thesis by auto
    next
      case None': None
      show ?thesis
      proof (cases "(Signal (opts (snd ?st)) \<and> signal_delivered K (world (snd ?st)))
                   \<or> Context_Done K (Context (opts (snd ?st))) (world (snd ?st))")
        case True
        with None None' have "Run_started K s = Run_returns (fst (Stop K (snd ?st))) (snd (Stop K (snd ?st)))"
          by (simp add: unfold case_prod_beta)
        with evs1 evs2 have "log (Run_state (Run_started K s)) = log (snd ?reg) @ (evs1 @ evs2)
            \<and> \<not> list_ex is_auth_request (evs1 @ evs2)"
          by simp
        then show ?thesis by blast
      next
        case False
        with None None' have "Run_started K s = Run_blocks (snd ?st)"
          by (simp add: unfold case_prod_beta)
        with evs1 show ?thesis by auto
      qed
    qed
    then obtain post where post: "log (Run_state (Run_started K s)) = log (snd ?reg) @ post"
      "\<not> list_ex is_auth_request post"
      by blast
    with None s1 reg pre
    have "log (Run_state (Run_started K s)) = log s @ pre @ reg @ post
      \<and> \<not> list_ex is_accept pre \<and> \<not> list_ex is_auth_request pre
      \<and> \<not> list_ex is_auth_request post
      \<and> bootstrap_entries (fst ?reg) reg
      \<and> (\<forall>e. fst ?reg = Some e \<longrightarrow>
            Run_started K s = Run_returns (Some e) (Run_state (Run_started K s)) \<and> post = [])"
      by simp
    then show ?thesis by blast
  qed
qed

text \<open>
  Claim C4. \<^verbatim>\<open>Run\<close> does the identity bootstrap strictly before the server's
  accept call. Whatever the collaborators and hooks do, the entries that \<^verbatim>\<open>Run\<close>
  adds to the log split into a part \<open>pre\<close> with no accept call and no request to
  the auth collaborator, the entries \<open>reg\<close> of one identity bootstrap, and a part
  \<open>post\<close> with no further request; so an accept call can only stand after the
  bootstrap. When the bootstrap fails, at the account generation or at the token,
  \<^verbatim>\<open>Run\<close> returns that error and \<open>post\<close> has no accept call either:
  \<^verbatim>\<open>Server.Start\<close> is never invoked. (When the profiler fails to start, \<^verbatim>\<open>Run\<close>
  returns before the bootstrap and \<open>reg\<close> and \<open>post\<close> are empty.)
\<close>

theorem Run_bootstrap_before_accept:
  "\<exists>pre reg post r.
      log (Run_state (Run K s)) = log s @ pre @ reg @ post
      \<and> \<not> list_ex is_accept pre \<and> \<not> list_ex is_auth_request pre
      \<and> \<not> list_ex is_auth_request post
      \<and> ((reg = [] \<and> post = [])
           \<or> (bootstrap_entries r reg
               \<and> (\<forall>e. r = Some e \<longrightarrow>
                     Run K s = Run_returns (Some e) (Run_state (Run K s))
                     \<and> \<not> list_ex is_accept post)))"
proof -
  let ?hev = "Ev_Server_Handle (Server (opts s)) [server_InternalHandler True]"
  define s1 where "s1 = snd (call (\<lambda>_. ?hev) (Server_Handle K (Server (opts s)) [server_InternalHandler True]) s)"
  have s1: "log s1 = log s @ [?hev]" "opts s1 = opts s"
    by (simp_all add: s1_def call_proj)
  have unfold: "Run K s =
     (case Profile (opts s1) of
        None \<Rightarrow> Run_started K s1
      | Some p \<Rightarrow>
          (case call (Ev_Profile_Start p) (Profile_Start K p) s1 of
             (Some err, s2) \<Rightarrow> Run_returns (Some err) s2
           | (None, s2) \<Rightarrow>
               (case Run_started K s2 of
                  Run_blocks s3 \<Rightarrow> Run_blocks s3
                | Run_returns r s3 \<Rightarrow>
                    (case call (\<lambda>_. Ev_Profile_Stop p) (Profile_Stop K p) s3 of
                       (_, s4) \<Rightarrow> Run_returns r s4))))"
    unfolding Run_def s1_def by (simp add: case_prod_beta)
  show ?thesis
  proof (cases "Profile (opts s1)")
    case None
    then have run: "Run K s = Run_started K s1"
      by (simp add: unfold)
    from Run_started_log [of K s1] obtain pre reg post r where sh:
      "log (Run_state (Run_started K s1)) = log s1 @ pre @ reg @ post"
      "\<not> list_ex is_accept pre" "\<not> list_ex is_auth_request pre"
      "\<not> list_ex is_auth_request post" "bootstrap_entries r reg"
      "\<forall>e. r = Some e \<longrightarrow>
            Run_started K s1 = Run_returns (Some e) (Run_state (Run_started K s1)) \<and> post = []"
      by blast
    from sh s1 run
    have "log (Run_state (Run K s)) = log s @ (?hev # pre) @ reg @ post
      \<and> \<not> list_ex is_accept (?hev # pre) \<and> \<not> list_ex is_auth_request (?hev # pre)
      \<and> \<not> list_ex is_auth_request post
      \<and> ((reg = [] \<and> post = [])
           \<or> (bootstrap_entries r reg
               \<and> (\<forall>e. r = Some e \<longrightarrow>
                     Run K s = Run_returns (Some e) (Run_state (Run K s))
                     \<and> \<not> list_ex is_accept post)))"
      by auto
    then show ?thesis by blast
  next
    case (Some p)
    let ?pc = "call (Ev_Profile_Start p) (Profile_Start K p) s1"
    show ?thesis
    proof (cases "fst ?pc")
      case perr: (Some err)
      with Some have run: "Run K s = Run_returns (Some err) (snd ?pc)"
        by (simp add: unfold case_prod_beta)
      let ?pre = "[?hev, Ev_Profile_Start p (Some err)]"
      from run s1 perr
      have "log (Run_state (Run K s)) = log s @ ?pre @ [] @ []
        \<and> \<not> list_ex is_accept ?pre \<and> \<not> list_ex is_auth_request ?pre
        \<and> \<not> list_ex is_auth_request []
        \<and> ((([] :: event list) = [] \<and> ([] :: event list) = [])
             \<or> (bootstrap_entries None []
                 \<and> (\<forall>e. None = Some e \<longrightarrow>
                       Run K s = Run_returns (Some e) (Run_state (Run K s))
                       \<and> \<not> list_ex is_accept [])))"
        by (simp add: call_proj)
      then show ?thesis by blast
    next
      case pok: None
      define s2 where "s2 = snd ?pc"
      let ?pev = "Ev_Profile_Start p None"
      from pok have s2: "log s2 = log s @ [?hev, ?pev]"
        by (simp add: s2_def call_proj s1)
      from Some pok have run: "Run K s =
         (case Run_started K s2 of
            Run_blocks s3 \<Rightarrow> Run_blocks s3
          | Run_returns r s3 \<Rightarrow>
              Run_returns r (snd (call (\<lambda>_. Ev_Profile_Stop p) (Profile_Stop K p) s3)))"
        by (simp add: unfold case_prod_beta s2_def split: Run_result.split)
      from Run_started_log [of K s2] obtain pre reg post r where sh:
        "log (Run_state (Run_started K s2)) = log s2 @ pre @ reg @ post"
        "\<not> list_ex is_accept pre" "\<not> list_ex is_auth_request pre"
        "\<not> list_ex is_auth_request post" "bootstrap_entries r reg"
        "\<forall>e. r = Some e \<longrightarrow>
              Run_started K s2 = Run_returns (Some e) (Run_state (Run_started K s2)) \<and> post = []"
        by blast
      show ?thesis
      proof (cases "Run_started K s2")
        case (Run_blocks s3)
        with run sh s2
        have "log (Run_state (Run K s)) = log s @ (?hev # ?pev # pre) @ reg @ post
          \<and> \<not> list_ex is_accept (?hev # ?pev # pre) \<and> \<not> list_ex is_auth_request (?hev # ?pev # pre)
          \<and> \<not> list_ex is_auth_request post
          \<and> ((reg = [] \<and> post = [])
               \<or> (bootstrap_entries r reg
                   \<and> (\<forall>e. r = Some e \<longrightarrow>
                         Run K s = Run_returns (Some e) (Run_state (Run K s))
                         \<and> \<not> list_ex is_accept post)))"
          by auto
        then show ?thesis by blast
      next
        case (Run_returns r' s3)
        let ?post = "post @ [Ev_Profile_Stop p]"
        from Run_returns run sh s2
        have "log (Run_state (Run K s)) = log s @ (?hev # ?pev # pre) @ reg @ ?post
          \<and> \<not> list_ex is_accept (?hev # ?pev # pre) \<and> \<not> list_ex is_auth_request (?hev # ?pev # pre)
          \<and> \<not> list_ex is_auth_request ?post
          \<and> ((reg = [] \<and> ?post = [])
               \<or> (bootstrap_entries r reg
                   \<and> (\<forall>e. r = Some e \<longrightarrow>
                         Run K s = Run_returns (Some e) (Run_state (Run K s))
                         \<and> \<not> list_ex is_accept ?post)))"
          by (auto simp: call_proj)
        then show ?thesis by blast
      qed
    qed
  qed
qed

lemma K_no_account_simps:
  "Auth_Generate K_no_account = (\<lambda>_ _ _ w. (Inl ''generation refused'', Suc w))"
  "Auth_Options K_no_account = (\<lambda>_ _. \<lparr>Namespace = ''ns''\<rparr>)"
  "Server_Options K_no_account = (\<lambda>_ _. \<lparr>Name = ''orders'', Id' = ''i1'', Auth' = 1\<rparr>)"
  "Server_Handle K_no_account = (\<lambda>_ _ w. (None, Suc w))"
  "logger_V K_no_account = (\<lambda>_. False)"
  by (simp_all add: K_no_account_def K0_def)

lemma Run_no_account:
  "Run K_no_account service0 =
     Run_returns (Some ''generation refused'')
       (service0\<lparr>world := Suc (Suc 0),
          log := [Ev_Server_Handle 6 [server_InternalHandler True],
                  Ev_Auth_Generate 1 ''orders-i1''
                    [auth_WithRoles [''service''], auth_WithNamespace ''ns'']
                    (Inl ''generation refused'')]\<rparr>)"
  by (simp add: Run_def Run_started_def registerAuthAccount_eq Let_def call_eq K_no_account_simps
      service_Name_def Sprintf_v_v_def serviceType_orders service0_def options0_def)

lemma K0_Run_simps:
  "Server_Handle K0 = (\<lambda>_ _ w. (None, Suc w))"
  "logger_V K0 = (\<lambda>_. False)"
  "signal_delivered K0 = (\<lambda>_. True)"
  by (simp_all add: K0_def)

lemma Run0:
  "Run K0 service0 =
     Run_returns None
       (service0\<lparr>world := Suc (Suc (Suc (Suc (Suc (Suc 0))))),
          log := [Ev_Server_Handle 6 [server_InternalHandler True],
                  Ev_Auth_Generate 1 ''orders-i1''
                    [auth_WithRoles [''service''], auth_WithNamespace ''ns'']
                    (Inr \<lparr>ID = ''id0'', Secret = ''secret0''\<rparr>),
                  Ev_Auth_Token 1 [auth_WithCredentials ''id0'' ''secret0''] (Inr ''token0''),
                  Ev_Auth_Init 1 [auth_ClientToken ''token0''],
                  Ev_logger_Infof ''Auth [service] Authenticated as orders-i1'',
                  Ev_Server_Start 6 None,
                  Ev_Server_Stop 6 None]\<rparr>)"
  by (simp add: Run_def Run_started_def registerAuthAccount_eq Let_def call_eq K0_simps K0_Run_simps
      K0_Server Start_def Stop_def
      service_Name_def Sprintf_v_v_def serviceType_orders service0_def options0_def)

theorem Run_bootstrap_before_accept_witness:
  "Run K_no_account service0 =
     Run_returns (Some ''generation refused'')
       (service0\<lparr>world := Suc (Suc 0),
          log := [Ev_Server_Handle 6 [server_InternalHandler True],
                  Ev_Auth_Generate 1 ''orders-i1''
                    [auth_WithRoles [''service''], auth_WithNamespace ''ns'']
                    (Inl ''generation refused'')]\<rparr>)
   \<and> bootstrap_entries (Some ''generation refused'')
         [Ev_Auth_Generate 1 ''orders-i1''
            [auth_WithRoles [''service''], auth_WithNamespace ''ns'']
            (Inl ''generation refused'')]
   \<and> \<not> list_ex is_accept
         [Ev_Server_Handle 6 [server_InternalHandler True],
          Ev_Auth_Generate 1 ''orders-i1''
            [auth_WithRoles [''service''], auth_WithNamespace ''ns'']
            (Inl ''generation refused'')]
   \<and> (\<exists>pre reg post r.
        log (Run_state (Run K_no_account service0)) = log service0 @ pre @ reg @ post
        \<and> \<not> list_ex is_accept pre \<and> \<not> list_ex is_auth_request pre
        \<and> \<not> list_ex is_auth_request post
        \<and> ((reg = [] \<and> post = [])
             \<or> (bootstrap_entries r reg
                 \<and> (\<forall>e. r = Some e \<longrightarrow>
                       Run K_no_account service0 =
                         Run_returns (Some e) (Run_state (Run K_no_account service0))
                       \<and> \<not> list_ex is_accept post))))"
proof (intro conjI)
  show "Run K_no_account service0 =
     Run_returns (Some ''generation refused'')
       (service0\<lparr>world := Suc (Suc 0),
          log := [Ev_Server_Handle 6 [server_InternalHandler True],
                  Ev_Auth_Generate 1 ''orders-i1''
                    [auth_WithRoles [''service''], auth_WithNamespace ''ns'']
                    (Inl ''generation refused'')]\<rparr>)"
    by (rule Run_no_account)
  show "bootstrap_entries (Some ''generation refused'')
         [Ev_Auth_Generate 1 ''orders-i1''
            [auth_WithRoles [''service''], auth_WithNamespace ''ns'']
            (Inl ''generation refused'')]"
    by (simp add: bootstrap_entries_def)
  show "\<not> list_ex is_accept
         [Ev_Server_Handle 6 [server_InternalHandler True],
          Ev_Auth_Generate 1 ''orders-i1''
            [auth_WithRoles [''service''], auth_WithNamespace ''ns'']
            (Inl ''generation refused'')]"
    by simp
  show "\<exists>pre reg post r.
        log (Run_state (Run K_no_account service0)) = log service0 @ pre @ reg @ post
        \<and> \<not> list_ex is_accept pre \<and> \<not> list_ex is_auth_request pre
        \<and> \<not> list_ex is_auth_request post
        \<and> ((reg = [] \<and> post = [])
             \<or> (bootstrap_entries r reg
                 \<and> (\<forall>e. r = Some e \<longrightarrow>
                       Run K_no_account service0 =
                         Run_returns (Some e) (Run_state (Run K_no_account service0))
                       \<and> \<not> list_ex is_accept post)))"
    by (rule Run_bootstrap_before_accept)
qed

end
